theory Spec2Isabelle
  imports Main "HOL-Library.Word"
begin

section \<open>SimulationHelper: the control loop of a PMacc simulation\<close>

text \<open>
  A shallow embedding of \<^verbatim>\<open>include/pmacc/simulationControl/SimulationHelper.hpp\<close>.
  The members of the class and the parts of the environment its methods touch are the
  fields of one record; every method is a function from the state to the new state, or
  to an error where the method throws.

  What lies outside the file is handled as follows.
  \<^item> \<^verbatim>\<open>uint32_t\<close> and \<^verbatim>\<open>uint16_t\<close> are 32 and 16 bit words: addition wraps,
    comparison is unsigned.
  \<^item> The calls into CUDA, MPI, the task manager and the plugin connector are recorded as
    events of a trace and are taken to return normally; \<^verbatim>\<open>sleep_for\<close> has no effect on
    the state.
  \<^item> The signal module (\<^verbatim>\<open>signal::received\<close>, \<^verbatim>\<open>signal::createCheckpoint\<close>,
    \<^verbatim>\<open>signal::stopSimulation\<close>) and the values the other ranks contribute to the
    reduction are inputs of \<open>checkSignals\<close>.
  \<^item> The file system is a map from paths to contents, with a predicate that says which
    paths can be opened for appending.
  \<^item> Of the output to \<^verbatim>\<open>std::cout\<close> the lines about signals are kept; the reports of
    elapsed time are not part of the state, the progress report is one event of the trace.
\<close>

type_synonym uint32_t = "32 word"
type_synonym uint16_t = "16 word"

subsection \<open>Time slices\<close>

text \<open>
  Modelled from the spec: \<^verbatim>\<open>pluginSystem::TimeSlice\<close> (pmacc/pluginSystem/TimeSlice.hpp is
  not part of the sources at hand). The spec describes an interval as a start step, an
  end step and an optional stride.
\<close>

record TimeSlice =
  sliceStart :: uint32_t
  sliceEnd :: uint32_t
  sliceStride :: "uint32_t option"

text \<open>
  Modelled from the spec: the constructor \<^verbatim>\<open>TimeSlice(start, end)\<close> used by
  \<^verbatim>\<open>checkSignals\<close>; the spec calls \<^verbatim>\<open>TimeSlice(s, s)\<close> the one-step interval {s,s}.
\<close>

definition mkTimeSlice :: "uint32_t \<Rightarrow> uint32_t \<Rightarrow> TimeSlice" where
  "mkTimeSlice b e = \<lparr>sliceStart = b, sliceEnd = e, sliceStride = None\<rparr>"

text \<open>
  Modelled from the spec: membership of a step in one interval. A step falls within an
  interval when it lies between start and end and, where a stride is given, its distance
  from the start is a multiple of the stride.
\<close>

definition inTimeSlice :: "TimeSlice \<Rightarrow> uint32_t \<Rightarrow> bool" where
  "inTimeSlice ts step =
     (sliceStart ts \<le> step \<and> step \<le> sliceEnd ts \<and>
      (case sliceStride ts of
         None \<Rightarrow> True
       | Some p \<Rightarrow> (step - sliceStart ts) mod p = 0))"

text \<open>
  Modelled from the spec: \<^verbatim>\<open>pluginSystem::containsStep\<close> (pmacc/pluginSystem/containsStep.hpp
  is not part of the sources at hand). It is true iff the step falls within one of the
  intervals; an empty sequence is never due.
\<close>

fun containsStep :: "TimeSlice list \<Rightarrow> uint32_t \<Rightarrow> bool" where
  "containsStep [] step = False"
| "containsStep (ts # rest) step = (if inTimeSlice ts step then True else containsStep rest step)"

subsection \<open>Printing and parsing unsigned integers\<close>

definition newline :: char where
  "newline = CHR 0x0A"

definition digit_char :: "nat \<Rightarrow> char" where
  "digit_char d = ''0123456789'' ! d"

text \<open>\<^verbatim>\<open>operator<<\<close> for an unsigned integer: its decimal digits, no sign, no padding.\<close>

fun decimal :: "nat \<Rightarrow> string" where
  "decimal n = (if n < 10 then [digit_char n] else decimal (n div 10) @ [digit_char (n mod 10)])"

declare decimal.simps [simp del]

definition is_digit :: "char \<Rightarrow> bool" where
  "is_digit c = (48 \<le> (of_char c :: nat) \<and> (of_char c :: nat) \<le> 57)"

definition digit_value :: "char \<Rightarrow> nat" where
  "digit_value c = (of_char c :: nat) - 48"

fun digits_value :: "string \<Rightarrow> nat \<Rightarrow> nat option" where
  "digits_value [] acc = Some acc"
| "digits_value (c # cs) acc =
     (if is_digit c then digits_value cs (acc * 10 + digit_value c) else None)"

text \<open>
  \<^verbatim>\<open>boost::lexical_cast<uint32_t>(std::string)\<close>, a library function: an optional sign, then
  one or more decimal digits up to the end of the string, of a value that fits 32 bits;
  after a minus sign the result is negated modulo \<open>2^32\<close>. \<open>None\<close> stands for
  \<^verbatim>\<open>boost::bad_lexical_cast\<close>. The theorems about reading the master file hold for
  whatever strings the cast rejects.
\<close>

definition lexical_cast_uint32 :: "string \<Rightarrow> uint32_t option" where
  "lexical_cast_uint32 s =
     (case s of
        [] \<Rightarrow> None
      | c # cs \<Rightarrow>
          (let has_minus = (c = CHR ''-'');
               ds = (if has_minus \<or> c = CHR ''+'' then cs else s)
           in if ds = [] then None
              else (case digits_value ds 0 of
                      None \<Rightarrow> None
                    | Some n \<Rightarrow>
                        if n \<le> 4294967295
                        then Some (if has_minus then 0 - word_of_nat n else word_of_nat n)
                        else None)))"

text \<open>
  \<^verbatim>\<open>while(std::getline(file, line))\<close>: the lines of a file's content. A line ends at a
  newline character or at the end of the file; after the last newline no further (empty)
  line is read.
\<close>

fun getlines :: "string \<Rightarrow> string \<Rightarrow> string list" where
  "getlines [] line = (if line = [] then [] else [line])"
| "getlines (c # cs) line =
     (if c = newline then line # getlines cs [] else getlines cs (line @ [c]))"

subsection \<open>The state\<close>

datatype error = RuntimeError string | InvalidPeriodSpec | DivisionByZero

datatype event =
    EnableMpiDirect
  | SignalActivate
  | Init
  | ResetAll uint32_t
  | FillSimulation
  | MovingWindowCheck uint32_t
  | RunOneStep uint32_t
  | NotifyPlugins uint32_t
  | DeviceSynchronize
  | WaitForFinished
  | Barrier
  | CreateDirectoryWithPermissions string
  | CheckpointPlugins uint32_t string
  | ProgressReport uint32_t
  | WaitForAllTasks

record sim_state =
  runSteps :: uint32_t               \<comment> \<open>member \<^verbatim>\<open>runSteps\<close>, the configured number of steps\<close>
  descRunSteps :: uint32_t           \<comment> \<open>\<^verbatim>\<open>SimulationDescription().getRunSteps()\<close>\<close>
  softRestarts :: uint32_t
  checkpointPeriod :: string
  seqCheckpointPeriod :: "TimeSlice list"
  checkpointDirectory :: string
  numCheckpoints :: uint32_t
  restartDirectory :: string
  restartRequested :: bool
  useMpiDirect :: bool
  tryRestart :: bool
  signalMaxTimestep :: uint32_t
  handleSignalAtStep :: uint32_t
  signalMPI :: "uint32_t option"     \<comment> \<open>a pending reduction and the value it delivers\<close>
  signalCreateCheckpoint :: bool
  signalStopSimulation :: bool
  output_flag :: bool            \<comment> \<open>member \<^verbatim>\<open>output\<close>\<close>
  progress :: uint16_t
  showProgressAnyStep :: uint32_t
  globalRank :: nat                  \<comment> \<open>\<^verbatim>\<open>GridController().getGlobalRank()\<close>\<close>
  fsFiles :: "string \<rightharpoonup> string"      \<comment> \<open>the files that exist, with their contents\<close>
  fsAppendable :: "string \<Rightarrow> bool"    \<comment> \<open>can the path be opened for appending\<close>
  cout :: "string list"
  trace :: "event list"

definition CHECKPOINT_MASTER_FILE :: string where
  "CHECKPOINT_MASTER_FILE = ''checkpoints.txt''"

text \<open>\<^verbatim>\<open>if(output) std::cout << ... << std::endl\<close>\<close>

definition say :: "string \<Rightarrow> sim_state \<Rightarrow> sim_state" where
  "say msg st = (if output_flag st then st\<lparr>cout := cout st @ [msg]\<rparr> else st)"

definition emit :: "event list \<Rightarrow> sim_state \<Rightarrow> sim_state" where
  "emit es st = st\<lparr>trace := trace st @ es\<rparr>"

subsection \<open>The checkpoint master file\<close>

definition masterFileOf :: "string \<Rightarrow> string" where
  "masterFileOf dir = dir @ ''/'' @ CHECKPOINT_MASTER_FILE"

text \<open>
  \<^verbatim>\<open>writeCheckpointStep\<close>: open the master file for appending, throw when the stream is
  not good, else write the step and a newline. The source tests the stream after
  \<^verbatim>\<open>open\<close> only.
\<close>

definition writeCheckpointStep :: "uint32_t \<Rightarrow> sim_state \<Rightarrow> error + sim_state" where
  "writeCheckpointStep checkpointStep st =
     (let checkpointMasterFile = masterFileOf (checkpointDirectory st) in
      if \<not> fsAppendable st checkpointMasterFile
      then Inl (RuntimeError ''Failed to write checkpoint master file'')
      else Inr (st\<lparr>fsFiles := (fsFiles st)(checkpointMasterFile \<mapsto>
                  (case fsFiles st checkpointMasterFile of None \<Rightarrow> [] | Some old \<Rightarrow> old)
                    @ decimal (unat checkpointStep) @ [newline])\<rparr>))"

definition invalidDataWarning :: "string \<Rightarrow> string" where
  "invalidDataWarning line =
     ''Warning: checkpoint master file contains invalid data ('' @ line @ '')''"

text \<open>
  The body of the reading loop: the steps pushed to \<^verbatim>\<open>checkpoints\<close> and the lines
  written to \<^verbatim>\<open>std::cerr\<close>, both in the order of the file.
\<close>

fun readLines :: "string list \<Rightarrow> uint32_t list \<times> string list" where
  "readLines [] = ([], [])"
| "readLines (line # rest) =
     (if line = [] then readLines rest
      else (case lexical_cast_uint32 line of
              Some v \<Rightarrow> (v # fst (readLines rest), snd (readLines rest))
            | None \<Rightarrow> (fst (readLines rest), invalidDataWarning line # snd (readLines rest))))"

text \<open>
  \<^verbatim>\<open>readCheckpointMasterFile\<close>: the steps found and the warnings printed. A file that
  exists is taken to be readable.
\<close>

definition readCheckpointMasterFile :: "sim_state \<Rightarrow> uint32_t list \<times> string list" where
  "readCheckpointMasterFile st =
     (case fsFiles st (masterFileOf (restartDirectory st)) of
        None \<Rightarrow> ([], [])
      | Some content \<Rightarrow> readLines (getlines content []))"

subsection \<open>Progress output\<close>

text \<open>
  \<^verbatim>\<open>calcProgress\<close>. The stride is computed in double precision,
  \<^verbatim>\<open>uint32_t(double(getRunSteps()) / 100. * double(progress))\<close>; that computation is the
  parameter \<open>toStride\<close>, so what is proved holds for whatever value it yields.
\<close>

definition calcProgress :: "(uint32_t \<Rightarrow> uint16_t \<Rightarrow> uint32_t) \<Rightarrow> sim_state \<Rightarrow> sim_state" where
  "calcProgress toStride st =
     (let st1 = (if progress st = 0 \<or> 100 < progress st then st\<lparr>progress := 100\<rparr> else st);
          st2 = st1\<lparr>showProgressAnyStep := toStride (descRunSteps st1) (progress st1)\<rparr>
      in if showProgressAnyStep st2 = 0 then st2\<lparr>showProgressAnyStep := 1\<rparr> else st2)"

text \<open>
  \<^verbatim>\<open>dumpTimes\<close>: the condition \<^verbatim>\<open>output && progress && (currentStep % showProgressAnyStep) == 0\<close>
  is evaluated left to right; a remainder by zero is undefined behaviour in C++, here the
  error \<open>DivisionByZero\<close>. The report itself is one event.
\<close>

definition dumpTimes :: "uint32_t \<Rightarrow> sim_state \<Rightarrow> error + sim_state" where
  "dumpTimes currentStep st =
     (if output_flag st \<and> progress st \<noteq> 0
      then (if showProgressAnyStep st = 0 then Inl DivisionByZero
            else if currentStep mod showProgressAnyStep st = 0
                 then Inr (emit [ProgressReport currentStep] st)
                 else Inr st)
      else Inr st)"

text \<open>\<^verbatim>\<open>pluginLoad\<close>\<close>

definition pluginLoad :: "(uint32_t \<Rightarrow> uint16_t \<Rightarrow> uint32_t) \<Rightarrow> sim_state \<Rightarrow> sim_state" where
  "pluginLoad toStride st =
     (let st1 = calcProgress toStride (st\<lparr>descRunSteps := runSteps st\<rparr>);
          st2 = st1\<lparr>output_flag := (globalRank st1 = 0)\<rparr>
      in if tryRestart st2 then st2\<lparr>restartRequested := True\<rparr> else st2)"

subsection \<open>Checkpoints\<close>

text \<open>The condition under which \<^verbatim>\<open>dumpOneStep\<close> writes a checkpoint.\<close>

definition checkpointDue :: "sim_state \<Rightarrow> uint32_t \<Rightarrow> bool" where
  "checkpointDue st currentStep =
     (checkpointPeriod st \<noteq> [] \<and> containsStep (seqCheckpointPeriod st) currentStep)"

text \<open>\<^verbatim>\<open>dumpOneStep\<close>\<close>

definition dumpOneStep :: "uint32_t \<Rightarrow> sim_state \<Rightarrow> error + sim_state" where
  "dumpOneStep currentStep st =
     (if checkpointDue st currentStep
      then
        (let st1 = emit [DeviceSynchronize, WaitForFinished, Barrier] st;
             st2 = (if numCheckpoints st1 = 0
                    then emit [CreateDirectoryWithPermissions (checkpointDirectory st1)] st1
                    else st1);
             st3 = emit [CheckpointPlugins currentStep (checkpointDirectory st2),
                         DeviceSynchronize, WaitForFinished, Barrier] st2
         in (case (if globalRank st3 = 0 then writeCheckpointStep currentStep st3 else Inr st3) of
               Inl e \<Rightarrow> Inl e
             | Inr st4 \<Rightarrow> Inr (st4\<lparr>numCheckpoints := numCheckpoints st4 + 1\<rparr>)))
      else Inr st)"

subsection \<open>Signals\<close>

text \<open>
  What one call of \<^verbatim>\<open>checkSignals\<close> sees of its environment: the answers of the signal
  module, and the values the other ranks contribute to the reduction this call starts.
\<close>

record signal_env =
  received :: bool
  createCheckpoint :: bool
  stopSimulation :: bool
  peers :: "uint32_t list"

text \<open>
  \<^verbatim>\<open>MPI_Iallreduce\<close> with \<^verbatim>\<open>MPI_MAX\<close> over one \<^verbatim>\<open>MPI_UINT32_T\<close>: the largest of the
  contributions of all ranks.
\<close>

definition allreduceMax :: "uint32_t \<Rightarrow> uint32_t list \<Rightarrow> uint32_t" where
  "allreduceMax own others = fold max others own"

definition handleSignals :: "sim_state \<Rightarrow> uint32_t \<Rightarrow> bool" where
  "handleSignals st currentStep = (handleSignalAtStep st < currentStep \<or> currentStep = 0)"

text \<open>
  The first block of \<^verbatim>\<open>checkSignals\<close>: a signal is taken up, the reduction is started.
  The request holds the value the reduction delivers once it is complete.
\<close>

definition scheduleSignal :: "signal_env \<Rightarrow> uint32_t \<Rightarrow> sim_state \<Rightarrow> sim_state" where
  "scheduleSignal env currentStep st =
     (let st1 = say ''SIGNAL: received.'' st;
          st2 = st1\<lparr>handleSignalAtStep := currentStep + 1\<rparr>;
          st3 = st2\<lparr>signalMPI := Some (allreduceMax (handleSignalAtStep st2) (peers env))\<rparr>;
          st4 = (if createCheckpoint env
                 then (say (''SIGNAL: Received at step '' @ decimal (unat currentStep)
                              @ ''. Schedule checkpointing. '') st3)
                        \<lparr>signalCreateCheckpoint := True\<rparr>
                 else st3)
      in if stopSimulation env
         then (say (''SIGNAL: Received at step '' @ decimal (unat currentStep)
                      @ ''. Schedule shutdown.'') st4)
                \<lparr>signalStopSimulation := True\<rparr>
         else st4)"

text \<open>
  \<^verbatim>\<open>Manager().waitFor(...)\<close> on the request: the reduction is complete, its value is in
  \<^verbatim>\<open>signalMaxTimestep\<close>, the request is \<^verbatim>\<open>MPI_REQUEST_NULL\<close> again. All ranks are taken to
  take part in the reduction, so the wait returns.
\<close>

definition waitForSignalMPI :: "sim_state \<Rightarrow> sim_state" where
  "waitForSignalMPI st =
     (case signalMPI st of
        None \<Rightarrow> st
      | Some m \<Rightarrow> st\<lparr>signalMaxTimestep := m, signalMPI := None\<rparr>)"

text \<open>The second block of \<^verbatim>\<open>checkSignals\<close>: the signals become actions.\<close>

definition applySignals :: "sim_state \<Rightarrow> sim_state" where
  "applySignals st =
     (let st1 = waitForSignalMPI st;
          st2 = (if signalCreateCheckpoint st1
                 then (say (''SIGNAL: Activate checkpointing for step ''
                              @ decimal (unat (signalMaxTimestep st1))) st1)
                        \<lparr>signalCreateCheckpoint := False,
                         seqCheckpointPeriod := seqCheckpointPeriod st1
                            @ [mkTimeSlice (signalMaxTimestep st1) (signalMaxTimestep st1)]\<rparr>
                 else st1)
      in if signalStopSimulation st2
         then (say (''SIGNAL: Shutdown simulation at step ''
                      @ decimal (unat (signalMaxTimestep st2))) st2)
                \<lparr>signalStopSimulation := False, descRunSteps := signalMaxTimestep st2\<rparr>
         else st2)"

text \<open>\<^verbatim>\<open>checkSignals\<close>\<close>

definition checkSignals :: "signal_env \<Rightarrow> uint32_t \<Rightarrow> sim_state \<Rightarrow> sim_state" where
  "checkSignals env currentStep st =
     (let st1 = (if handleSignals st currentStep \<and> received env
                 then scheduleSignal env currentStep st
                 else st)
      in if currentStep \<noteq> 0 \<and> handleSignalAtStep st1 = currentStep
         then applySignals st1
         else st1)"

subsection \<open>The simulation loop\<close>

text \<open>\<^verbatim>\<open>notifyPlugins\<close>: the plugins are notified, then the signals are checked.\<close>

definition notifyPlugins :: "signal_env \<Rightarrow> uint32_t \<Rightarrow> sim_state \<Rightarrow> sim_state" where
  "notifyPlugins env currentStep st = checkSignals env currentStep (emit [NotifyPlugins currentStep] st)"

text \<open>
  The \<^verbatim>\<open>while\<close> loop of \<^verbatim>\<open>startSimulation\<close>. \<open>env\<close> gives what \<^verbatim>\<open>checkSignals\<close> sees
  at each step. The loop ends: the step counter stays below a 32 bit bound and grows.
\<close>

function simulationLoop ::
  "(uint32_t \<Rightarrow> signal_env) \<Rightarrow> uint32_t \<Rightarrow> sim_state \<Rightarrow> error + (uint32_t \<times> sim_state)" where
  "simulationLoop env currentStep st =
     (if currentStep < descRunSteps st
      then (case dumpTimes (currentStep + 1) (emit [RunOneStep currentStep] st) of
              Inl e \<Rightarrow> Inl e
            | Inr st2 \<Rightarrow>
                (case dumpOneStep (currentStep + 1)
                        (notifyPlugins (env (currentStep + 1)) (currentStep + 1)
                           (emit [MovingWindowCheck (currentStep + 1)] st2)) of
                   Inl e \<Rightarrow> Inl e
                 | Inr st3 \<Rightarrow> simulationLoop env (currentStep + 1) st3))
      else Inr (currentStep, st))"
  by pat_completeness auto
termination
proof (relation "measure (\<lambda>(env, c, st). 2 ^ 32 - unat c)")
  show "wf (measure (\<lambda>(env, c, st). 2 ^ 32 - unat c))" by simp
next
  fix env :: "uint32_t \<Rightarrow> signal_env" and currentStep :: uint32_t and st st3 :: sim_state
  assume lt: "currentStep < descRunSteps st"
  have "unat currentStep < unat (descRunSteps st)"
    using lt by (simp add: word_less_nat_alt)
  moreover have "unat (descRunSteps st) < 2 ^ 32"
    using unsigned_less [of "descRunSteps st", where 'a = nat] by simp
  ultimately have small: "unat currentStep + unat (1 :: uint32_t) < 2 ^ LENGTH(32)"
    by simp
  have "unat (currentStep + 1) = unat currentStep + 1"
    using small unat_add_lem [of currentStep 1] by simp
  then show "((env, currentStep + 1, st3), (env, currentStep, st))
               \<in> measure (\<lambda>(env, c, st). 2 ^ 32 - unat c)"
    using small by simp
qed

declare simulationLoop.simps [simp del]

text \<open>
  One turn of the \<^verbatim>\<open>while\<close> loop: the body of the loop, from \<^verbatim>\<open>runOneStep\<close> to
  \<^verbatim>\<open>dumpOneStep\<close>, at the step \<open>currentStep\<close>.
\<close>

definition simulationStep ::
  "(uint32_t \<Rightarrow> signal_env) \<Rightarrow> uint32_t \<Rightarrow> sim_state \<Rightarrow> error + sim_state" where
  "simulationStep env currentStep st =
     (case dumpTimes (currentStep + 1) (emit [RunOneStep currentStep] st) of
        Inl e \<Rightarrow> Inl e
      | Inr st2 \<Rightarrow>
          dumpOneStep (currentStep + 1)
            (notifyPlugins (env (currentStep + 1)) (currentStep + 1)
               (emit [MovingWindowCheck (currentStep + 1)] st2)))"

text \<open>
  The step and the state after \<open>k\<close> complete turns of the \<^verbatim>\<open>while\<close> loop; \<open>None\<close> where
  the loop ends or throws before.
\<close>

fun loopPrefix ::
  "nat \<Rightarrow> (uint32_t \<Rightarrow> signal_env) \<Rightarrow> uint32_t \<Rightarrow> sim_state \<Rightarrow> (uint32_t \<times> sim_state) option" where
  "loopPrefix 0 env currentStep st = Some (currentStep, st)"
| "loopPrefix (Suc k) env currentStep st =
     (if currentStep < descRunSteps st
      then (case simulationStep env currentStep st of
              Inl e \<Rightarrow> None
            | Inr st3 \<Rightarrow> loopPrefix k env (currentStep + 1) st3)
      else None)"

text \<open>
  What a run sees of its environment: the parser of the checkpoint period
  (\<^verbatim>\<open>pluginSystem::toTimeSlice\<close>, outside this file; \<open>None\<close> where it rejects the text,
  the failure the spec calls \<^verbatim>\<open>InvalidPeriodSpec\<close>), the step \<^verbatim>\<open>fillSimulation\<close> returns in
  each pass, and what \<^verbatim>\<open>checkSignals\<close> sees in each pass at each step.
\<close>

record run_env =
  toTimeSlice :: "string \<Rightarrow> TimeSlice list option"
  fillSimulation :: "nat \<Rightarrow> uint32_t"
  signalsAt :: "nat \<Rightarrow> uint32_t \<Rightarrow> signal_env"

text \<open>The body of the loop over the soft restarts; \<open>pass\<close> counts the passes made.\<close>

definition softRestartPass :: "run_env \<Rightarrow> nat \<Rightarrow> sim_state \<Rightarrow> error + sim_state" where
  "softRestartPass env pass st =
     (let currentStep = fillSimulation env pass;
          st1 = emit [ResetAll 0, FillSimulation, MovingWindowCheck currentStep] st
      in (case (if \<not> restartRequested st1
                then dumpOneStep currentStep
                       (notifyPlugins (signalsAt env pass currentStep) currentStep st1)
                else Inr st1) of
            Inl e \<Rightarrow> Inl e
          | Inr st2 \<Rightarrow>
              (case dumpTimes currentStep st2 of
                 Inl e \<Rightarrow> Inl e
               | Inr st3 \<Rightarrow>
                   (case simulationLoop (signalsAt env pass) currentStep st3 of
                      Inl e \<Rightarrow> Inl e
                    | Inr (lastStep, st4) \<Rightarrow> Inr (emit [WaitForAllTasks] st4)))))"

text \<open>
  \<^verbatim>\<open>for(uint32_t nthSoftRestart = 0; nthSoftRestart <= softRestarts; ++nthSoftRestart)\<close>.
  The counter wraps, so with \<^verbatim>\<open>softRestarts\<close> at its largest value the loop does not end:
  the loop takes fuel, and \<open>None\<close> says that the fuel did not suffice.
\<close>

fun softRestartLoop ::
  "nat \<Rightarrow> run_env \<Rightarrow> nat \<Rightarrow> uint32_t \<Rightarrow> sim_state \<Rightarrow> (error + sim_state) option" where
  "softRestartLoop 0 env pass nthSoftRestart st = None"
| "softRestartLoop (Suc fuel) env pass nthSoftRestart st =
     (if nthSoftRestart \<le> softRestarts st
      then (case softRestartPass env pass st of
              Inl e \<Rightarrow> Some (Inl e)
            | Inr st1 \<Rightarrow> softRestartLoop fuel env (Suc pass) (nthSoftRestart + 1) st1)
      else Some (Inr st))"

text \<open>
  The pass, the counter and the state after \<open>k\<close> complete passes of the loop over the soft
  restarts; \<open>None\<close> where the loop ends or throws before.
\<close>

fun passPrefix ::
  "nat \<Rightarrow> run_env \<Rightarrow> nat \<Rightarrow> uint32_t \<Rightarrow> sim_state \<Rightarrow> (nat \<times> uint32_t \<times> sim_state) option" where
  "passPrefix 0 env pass nthSoftRestart st = Some (pass, nthSoftRestart, st)"
| "passPrefix (Suc k) env pass nthSoftRestart st =
     (if nthSoftRestart \<le> softRestarts st
      then (case softRestartPass env pass st of
              Inl e \<Rightarrow> None
            | Inr st1 \<Rightarrow> passPrefix k env (Suc pass) (nthSoftRestart + 1) st1)
      else None)"

text \<open>\<^verbatim>\<open>startSimulation\<close>\<close>

definition startSimulation :: "nat \<Rightarrow> run_env \<Rightarrow> sim_state \<Rightarrow> (error + sim_state) option" where
  "startSimulation fuel env st =
     (let st1 = (if useMpiDirect st then emit [EnableMpiDirect] st else st);
          st2 = emit [SignalActivate, Init] st1
      in (case toTimeSlice env (checkpointPeriod st2) of
            None \<Rightarrow> Some (Inl InvalidPeriodSpec)
          | Some seq \<Rightarrow> softRestartLoop fuel env 0 0 (st2\<lparr>seqCheckpointPeriod := seq\<rparr>)))"

subsection \<open>Initial state and observations\<close>

text \<open>
  The object as the constructor and the default member initialisers leave it, with the
  defaults of the command line options (\<^verbatim>\<open>percent\<close> 5, no soft restarts, no checkpoint
  period), on the rank and the file system given.
\<close>

definition newSimulationHelper ::
  "nat \<Rightarrow> (string \<rightharpoonup> string) \<Rightarrow> (string \<Rightarrow> bool) \<Rightarrow> sim_state" where
  "newSimulationHelper rank files appendable =
     \<lparr>runSteps = 0, descRunSteps = 0, softRestarts = 0, checkpointPeriod = [],
      seqCheckpointPeriod = [], checkpointDirectory = ''checkpoints'', numCheckpoints = 0,
      restartDirectory = ''checkpoints'', restartRequested = False, useMpiDirect = False,
      tryRestart = False, signalMaxTimestep = 0, handleSignalAtStep = 0, signalMPI = None,
      signalCreateCheckpoint = False, signalStopSimulation = False, output_flag = False,
      progress = 5, showProgressAnyStep = 0, globalRank = rank,
      fsFiles = files, fsAppendable = appendable, cout = [], trace = []\<rparr>"

text \<open>The value the wait of \<^verbatim>\<open>checkSignals\<close> finds in \<^verbatim>\<open>signalMaxTimestep\<close>.\<close>

definition agreedStep :: "sim_state \<Rightarrow> uint32_t" where
  "agreedStep st = (case signalMPI st of None \<Rightarrow> signalMaxTimestep st | Some m \<Rightarrow> m)"

fun isCreateDirectory :: "event \<Rightarrow> bool" where
  "isCreateDirectory (CreateDirectoryWithPermissions dir) = True"
| "isCreateDirectory e = False"

fun isCheckpoint :: "event \<Rightarrow> bool" where
  "isCheckpoint (CheckpointPlugins step dir) = True"
| "isCheckpoint e = False"

text \<open>How often the checkpoint directory was created, and how many checkpoints were taken.\<close>

definition directoryCreations :: "sim_state \<Rightarrow> nat" where
  "directoryCreations st = length (filter isCreateDirectory (trace st))"

definition checkpointsTaken :: "sim_state \<Rightarrow> nat" where
  "checkpointsTaken st = length (filter isCheckpoint (trace st))"

text \<open>The content of the checkpoint master file, empty when there is none.\<close>

definition masterFileContent :: "sim_state \<Rightarrow> string" where
  "masterFileContent st =
     (case fsFiles st (masterFileOf (checkpointDirectory st)) of None \<Rightarrow> [] | Some c \<Rightarrow> c)"

text \<open>
  The fields that decide how long the run goes on: the number of run steps, the step at
  which the last decision is applied, the agreed step, the pending stop, and the
  configuration of restarts.
\<close>

definition controlView ::
  "sim_state \<Rightarrow> uint32_t \<times> uint32_t \<times> uint32_t \<times> bool \<times> bool \<times> uint32_t" where
  "controlView st =
     (descRunSteps st, handleSignalAtStep st, agreedStep st, signalStopSimulation st,
      restartRequested st, softRestarts st)"

text \<open>
  The counter of checkpoints and the trace agree, as long as the counter has not wrapped:
  the counter is the number of checkpoints taken, and the directory was created once if a
  checkpoint was taken and never otherwise.
\<close>

definition countsAgree :: "sim_state \<Rightarrow> bool" where
  "countsAgree st =
     (checkpointsTaken st < 2 ^ 32 \<longrightarrow>
        unat (numCheckpoints st) = checkpointsTaken st \<and>
        directoryCreations st = (if checkpointsTaken st = 0 then 0 else 1))"

text \<open>The counter of checkpoints and what the trace shows of checkpoints.\<close>

definition countView :: "sim_state \<Rightarrow> uint32_t \<times> nat \<times> nat" where
  "countView st = (numCheckpoints st, checkpointsTaken st, directoryCreations st)"

text \<open>From one state to a later one: no checkpoint is lost from the trace, and agreement is kept.\<close>

definition countsKept :: "sim_state \<Rightarrow> sim_state \<Rightarrow> bool" where
  "countsKept st st' =
     (checkpointsTaken st \<le> checkpointsTaken st' \<and> (countsAgree st \<longrightarrow> countsAgree st'))"

section \<open>Evaluation\<close>

text \<open>The definitions that the evaluation of a run on a given input unfolds.\<close>

lemmas run_defs =
  startSimulation_def softRestartPass_def notifyPlugins_def checkSignals_def
  scheduleSignal_def applySignals_def waitForSignalMPI_def say_def handleSignals_def
  allreduceMax_def dumpOneStep_def checkpointDue_def inTimeSlice_def mkTimeSlice_def
  writeCheckpointStep_def dumpTimes_def newSimulationHelper_def emit_def Let_def

section \<open>Progress output\<close>

lemma word_one_le_iff: "(1 \<le> (w :: 'a::len word)) = (w \<noteq> 0)"
  using word_le_sub1 by auto

lemma calcProgress_stride_nonzero: "showProgressAnyStep (calcProgress toStride st) \<noteq> 0"
  by (simp add: calcProgress_def Let_def)

lemma calcProgress_progress:
  "progress (calcProgress toStride st) =
     (if progress st = 0 \<or> 100 < progress st then 100 else progress st)"
  by (simp add: calcProgress_def Let_def)

lemma calcProgress_stride:
  "showProgressAnyStep (calcProgress toStride st) =
     (let s = toStride (descRunSteps st) (progress (calcProgress toStride st))
      in if s = 0 then 1 else s)"
  by (simp add: calcProgress_def Let_def)

section \<open>Reading the checkpoint master file\<close>

lemma readLines_eq:
  "readLines ls =
     (List.map_filter lexical_cast_uint32 ls,
      map invalidDataWarning (filter (\<lambda>l. l \<noteq> [] \<and> lexical_cast_uint32 l = None) ls))"
proof (induction ls)
  case Nil
  show ?case by (simp add: map_filter_simps)
next
  case (Cons l ls)
  show ?case
  proof (cases "l = []")
    case True
    then show ?thesis using Cons by (simp add: map_filter_simps lexical_cast_uint32_def)
  next
    case False
    then show ?thesis using Cons
      by (cases "lexical_cast_uint32 l") (simp_all add: map_filter_simps)
  qed
qed

lemma getlines_line:
  "newline \<notin> set a \<Longrightarrow> getlines (a @ newline # rest) acc = (acc @ a) # getlines rest []"
  by (induction a arbitrary: acc) auto

lemma digits_value_digits: "digits_value ds acc = Some n \<Longrightarrow> c \<in> set ds \<Longrightarrow> is_digit c"
  by (induction ds arbitrary: acc) (auto split: if_splits)

lemma lexical_cast_no_newline:
  assumes "lexical_cast_uint32 s = Some v"
  shows "newline \<notin> set s"
proof
  assume nl: "newline \<in> set s"
  have nd: "\<not> is_digit newline" by (simp add: is_digit_def newline_def)
  obtain c cs where s: "s = c # cs" using assms by (cases s) (auto simp: lexical_cast_uint32_def)
  show False
  proof (cases "c = CHR ''-'' \<or> c = CHR ''+''")
    case True
    then have "c \<noteq> newline" by (auto simp: newline_def)
    then have "newline \<in> set cs" using nl s by simp
    moreover obtain n where "digits_value cs 0 = Some n"
      using assms s True by (auto simp: lexical_cast_uint32_def Let_def split: if_splits option.splits)
    ultimately show False using digits_value_digits nd by blast
  next
    case False
    then obtain n where "digits_value s 0 = Some n"
      using assms s by (auto simp: lexical_cast_uint32_def Let_def split: if_splits option.splits)
    then show False using digits_value_digits nd nl by blast
  qed
qed

lemma readLines_three:
  assumes "lexical_cast_uint32 a = Some x" "lexical_cast_uint32 c = Some y"
    "lexical_cast_uint32 b = None" "b \<noteq> []" "newline \<notin> set b"
  shows "readLines (getlines (a @ [newline] @ b @ [newline] @ c @ [newline]) [])
           = ([x, y], [invalidDataWarning b])"
proof -
  have na: "newline \<notin> set a" and nc: "newline \<notin> set c"
    using assms lexical_cast_no_newline by blast+
  have a0: "a \<noteq> []" and c0: "c \<noteq> []"
    using assms by (auto simp: lexical_cast_uint32_def)
  have "getlines (a @ [newline] @ b @ [newline] @ c @ [newline]) [] = [a, b, c]"
    using na nc assms(5) by (simp add: getlines_line)
  then show ?thesis using assms a0 c0 by simp
qed

text \<open>
  C7. Reading the checkpoint master file gives no step (and no warning, no error) when
  the file does not exist. When it exists, the result is the steps of the lines the cast
  accepts, in the order of the file, and one warning for every line that is not empty and
  that the cast rejects; the read goes on after such a line. So a file of a valid line, a
  corrupted line and a valid line gives exactly the two valid steps and one warning.
\<close>

theorem C7_readCheckpointMasterFile:
  "(fsFiles st (masterFileOf (restartDirectory st)) = None \<longrightarrow>
      readCheckpointMasterFile st = ([], [])) \<and>
   (fsFiles st (masterFileOf (restartDirectory st)) = Some content \<longrightarrow>
      fst (readCheckpointMasterFile st)
        = List.map_filter lexical_cast_uint32 (getlines content []) \<and>
      snd (readCheckpointMasterFile st)
        = map invalidDataWarning
            (filter (\<lambda>l. l \<noteq> [] \<and> lexical_cast_uint32 l = None) (getlines content []))) \<and>
   (lexical_cast_uint32 a = Some x \<and> lexical_cast_uint32 c = Some y \<and>
    lexical_cast_uint32 b = None \<and> b \<noteq> [] \<and> newline \<notin> set b \<and>
    fsFiles st (masterFileOf (restartDirectory st))
      = Some (a @ [newline] @ b @ [newline] @ c @ [newline]) \<longrightarrow>
      readCheckpointMasterFile st = ([x, y], [invalidDataWarning b]))"
  using readLines_three [of a x c y b]
  by (simp add: readCheckpointMasterFile_def readLines_eq)

theorem C7_readCheckpointMasterFile_witness:
  "readCheckpointMasterFile (newSimulationHelper 0 Map.empty (\<lambda>p. True)) = ([], []) \<and>
   readCheckpointMasterFile
     (newSimulationHelper 0
        [''checkpoints/checkpoints.txt'' \<mapsto> ''5'' @ [newline] @ ''x1'' @ [newline] @ ''12'' @ [newline]]
        (\<lambda>p. True))
     = ([5, 12], [invalidDataWarning ''x1''])"
proof -
  let ?st = "newSimulationHelper 0
        [''checkpoints/checkpoints.txt'' \<mapsto> ''5'' @ [newline] @ ''x1'' @ [newline] @ ''12'' @ [newline]]
        (\<lambda>p. True)"
  have f: "fsFiles ?st (masterFileOf (restartDirectory ?st))
             = Some (''5'' @ [newline] @ ''x1'' @ [newline] @ ''12'' @ [newline])"
    by (simp add: newSimulationHelper_def masterFileOf_def CHECKPOINT_MASTER_FILE_def)
  have e: "fsFiles (newSimulationHelper 0 Map.empty (\<lambda>p. True))
             (masterFileOf (restartDirectory (newSimulationHelper 0 Map.empty (\<lambda>p. True)))) = None"
    by (simp add: newSimulationHelper_def)
  have p: "lexical_cast_uint32 ''5'' = Some 5 \<and> lexical_cast_uint32 ''12'' = Some 12 \<and>
           lexical_cast_uint32 ''x1'' = None \<and> newline \<notin> set ''x1''"
    by (simp add: lexical_cast_uint32_def is_digit_def digit_value_def newline_def)
  show ?thesis
    using C7_readCheckpointMasterFile [of "newSimulationHelper 0 Map.empty (\<lambda>p. True)" "[]" "[]" 0 "[]" 0 "[]"]
      C7_readCheckpointMasterFile [of ?st "[]" "''5''" 5 "''12''" 12 "''x1''"] f e p
    by simp
qed

text \<open>
  C10. An empty line of the checkpoint master file leaves no step and no warning:
  reading is the same with the empty lines removed, the steps returned are those of the
  lines that are not empty and that the cast accepts, in the order of the file, and the
  warnings are those of the lines that are not empty and that the cast rejects.
\<close>

theorem C10_empty_lines_silent:
  "readLines ls = readLines (filter (\<lambda>l. l \<noteq> []) ls) \<and>
   readLines (pre @ [] # post) = readLines (pre @ post) \<and>
   readLines (replicate n []) = ([], []) \<and>
   fst (readLines ls) = List.map_filter lexical_cast_uint32 (filter (\<lambda>l. l \<noteq> []) ls) \<and>
   snd (readLines ls)
     = map invalidDataWarning (filter (\<lambda>l. lexical_cast_uint32 l = None) (filter (\<lambda>l. l \<noteq> []) ls)) \<and>
   (fsFiles st (masterFileOf (restartDirectory st)) = Some content \<longrightarrow>
      fst (readCheckpointMasterFile st)
        = List.map_filter lexical_cast_uint32 (filter (\<lambda>l. l \<noteq> []) (getlines content [])))"
proof -
  have e: "lexical_cast_uint32 [] = None"
    by (simp add: lexical_cast_uint32_def)
  have mf: "List.map_filter lexical_cast_uint32 (filter (\<lambda>l. l \<noteq> []) xs)
              = List.map_filter lexical_cast_uint32 xs" for xs
    by (induction xs) (simp_all add: map_filter_simps e split: option.splits)
  have fl: "filter (\<lambda>l. lexical_cast_uint32 l = None) (filter (\<lambda>l. l \<noteq> []) xs)
              = filter (\<lambda>l. l \<noteq> [] \<and> lexical_cast_uint32 l = None) xs" for xs
    by (induction xs) auto
  have rp: "filter (\<lambda>l. l \<noteq> [] \<and> lexical_cast_uint32 l = None) (replicate n []) = []"
    by (induction n) auto
  have rm: "List.map_filter lexical_cast_uint32 (replicate n []) = []"
    by (induction n) (simp_all add: map_filter_simps e)
  have a: "readLines ls = readLines (filter (\<lambda>l. l \<noteq> []) ls)"
    by (simp add: readLines_eq mf fl)
  have b: "readLines (pre @ [] # post) = readLines (pre @ post)"
    by (simp add: readLines_eq map_filter_def e)
  show ?thesis
    using a b by (simp add: readLines_eq mf fl rp rm readCheckpointMasterFile_def)
qed

theorem C10_empty_lines_silent_witness:
  "readCheckpointMasterFile
     (newSimulationHelper 0
        [''checkpoints/checkpoints.txt'' \<mapsto> ''5'' @ [newline, newline] @ ''12'' @ [newline]]
        (\<lambda>p. True))
     = ([5, 12], [])"
proof -
  let ?c = "''5'' @ [newline, newline] @ ''12'' @ [newline]"
  let ?st = "newSimulationHelper 0 [''checkpoints/checkpoints.txt'' \<mapsto> ?c] (\<lambda>p. True)"
  have f: "fsFiles ?st (masterFileOf (restartDirectory ?st)) = Some ?c"
    by (simp add: newSimulationHelper_def masterFileOf_def CHECKPOINT_MASTER_FILE_def)
  have g: "getlines ?c [] = [''5'', [], ''12'']"
    by (simp add: newline_def)
  have p: "lexical_cast_uint32 ''5'' = Some 5 \<and> lexical_cast_uint32 ''12'' = Some 12"
    by (simp add: lexical_cast_uint32_def is_digit_def digit_value_def)
  have r: "readCheckpointMasterFile ?st = readLines [''5'', [], ''12'']"
    using f g by (simp add: readCheckpointMasterFile_def)
  note t = C10_empty_lines_silent [of "[''5'', [], ''12'']" "[''5'']" "[''12'']" 3 ?st ?c]
  have a: "fst (readCheckpointMasterFile ?st) = [5, 12]"
    using t f g p by (simp add: map_filter_simps)
  have b: "snd (readLines [''5'', [], ''12'']) = []"
    using t p by simp
  show ?thesis
    using a b r by (simp add: prod_eq_iff)
qed

section \<open>Signals\<close>

lemma allreduceMax_Max: "allreduceMax own others = Max (insert own (set others))"
proof -
  have "fold max others own = Max (insert own (set others))"
    using Max.set_eq_fold [of own others] by simp
  then show ?thesis by (simp add: allreduceMax_def)
qed

lemma allreduceMax_ge_own: "own \<le> allreduceMax own others"
  by (simp add: allreduceMax_Max)


lemma scheduleSignal_fields:
  "handleSignalAtStep (scheduleSignal env c st) = c + 1"
  "signalMPI (scheduleSignal env c st) = Some (allreduceMax (c + 1) (peers env))"
  "signalCreateCheckpoint (scheduleSignal env c st) = (signalCreateCheckpoint st \<or> createCheckpoint env)"
  "signalStopSimulation (scheduleSignal env c st) = (signalStopSimulation st \<or> stopSimulation env)"
  "signalMaxTimestep (scheduleSignal env c st) = signalMaxTimestep st"
  "descRunSteps (scheduleSignal env c st) = descRunSteps st"
  "seqCheckpointPeriod (scheduleSignal env c st) = seqCheckpointPeriod st"
  "checkpointPeriod (scheduleSignal env c st) = checkpointPeriod st"
  "numCheckpoints (scheduleSignal env c st) = numCheckpoints st"
  "trace (scheduleSignal env c st) = trace st"
  "fsFiles (scheduleSignal env c st) = fsFiles st"
  "showProgressAnyStep (scheduleSignal env c st) = showProgressAnyStep st"
  by (simp_all add: scheduleSignal_def say_def Let_def)

lemma applySignals_fields:
  "handleSignalAtStep (applySignals st) = handleSignalAtStep st"
  "signalMPI (applySignals st) = None"
  "signalMaxTimestep (applySignals st) = agreedStep st"
  "signalCreateCheckpoint (applySignals st) = False"
  "signalStopSimulation (applySignals st) = False"
  "descRunSteps (applySignals st) = (if signalStopSimulation st then agreedStep st else descRunSteps st)"
  "seqCheckpointPeriod (applySignals st) =
     (if signalCreateCheckpoint st
      then seqCheckpointPeriod st @ [mkTimeSlice (agreedStep st) (agreedStep st)]
      else seqCheckpointPeriod st)"
  "checkpointPeriod (applySignals st) = checkpointPeriod st"
  "numCheckpoints (applySignals st) = numCheckpoints st"
  "trace (applySignals st) = trace st"
  "fsFiles (applySignals st) = fsFiles st"
  "showProgressAnyStep (applySignals st) = showProgressAnyStep st"
  by (simp_all add: applySignals_def waitForSignalMPI_def agreedStep_def say_def Let_def
      split: option.splits)

lemma checkSignals_cases:
  "checkSignals env c st =
     (if handleSignals st c \<and> received env then scheduleSignal env c st
      else if c \<noteq> 0 \<and> handleSignalAtStep st = c then applySignals st
      else st)"
  by (auto simp: checkSignals_def Let_def scheduleSignal_fields)

lemma checkSignals_frame:
  "numCheckpoints (checkSignals env c st) = numCheckpoints st"
  "trace (checkSignals env c st) = trace st"
  "fsFiles (checkSignals env c st) = fsFiles st"
  "checkpointPeriod (checkSignals env c st) = checkpointPeriod st"
  "showProgressAnyStep (checkSignals env c st) = showProgressAnyStep st"
  by (simp_all add: checkSignals_cases scheduleSignal_fields applySignals_fields)

lemma agreedStep_scheduleSignal:
  "agreedStep (scheduleSignal env c st) = allreduceMax (c + 1) (peers env)"
  by (simp add: agreedStep_def scheduleSignal_fields)

lemma agreedStep_applySignals: "agreedStep (applySignals st) = agreedStep st"
  by (simp add: agreedStep_def applySignals_fields)

text \<open>
  C4. When \<^verbatim>\<open>checkSignals\<close> takes up a pending signal at step \<open>c\<close> (handling is
  permitted and a signal was received), the step it proposes, \<^verbatim>\<open>handleSignalAtStep\<close>, is
  \<open>c + 1\<close> in 32 bit arithmetic and never \<open>c\<close>, and a reduction is pending whose value
  is the maximum of this proposal and the proposals of the other ranks, whatever their
  order. The call of the next step (when \<open>c + 1\<close> has not wrapped to 0) applies the
  decision with that maximum: it is the step of the new checkpoint interval and the new
  number of run steps.
\<close>

theorem C4_schedule_at_next_step:
  "handleSignals st c \<and> received env \<longrightarrow>
     handleSignalAtStep (checkSignals env c st) = c + 1 \<and>
     handleSignalAtStep (checkSignals env c st) \<noteq> c \<and>
     signalMPI (checkSignals env c st) = Some (allreduceMax (c + 1) (peers env)) \<and>
     allreduceMax (c + 1) (peers env) = Max (insert (c + 1) (set (peers env))) \<and>
     (set others = set (peers env) \<longrightarrow>
        allreduceMax (c + 1) others = allreduceMax (c + 1) (peers env)) \<and>
     signalCreateCheckpoint (checkSignals env c st)
       = (signalCreateCheckpoint st \<or> createCheckpoint env) \<and>
     signalStopSimulation (checkSignals env c st)
       = (signalStopSimulation st \<or> stopSimulation env) \<and>
     (c + 1 \<noteq> 0 \<longrightarrow>
        signalMaxTimestep (checkSignals env' (c + 1) (checkSignals env c st))
          = allreduceMax (c + 1) (peers env) \<and>
        signalMPI (checkSignals env' (c + 1) (checkSignals env c st)) = None \<and>
        seqCheckpointPeriod (checkSignals env' (c + 1) (checkSignals env c st))
          = (if signalCreateCheckpoint st \<or> createCheckpoint env
             then seqCheckpointPeriod st
                    @ [mkTimeSlice (allreduceMax (c + 1) (peers env))
                         (allreduceMax (c + 1) (peers env))]
             else seqCheckpointPeriod st) \<and>
        descRunSteps (checkSignals env' (c + 1) (checkSignals env c st))
          = (if signalStopSimulation st \<or> stopSimulation env
             then allreduceMax (c + 1) (peers env)
             else descRunSteps st))"
proof (intro impI)
  assume h: "handleSignals st c \<and> received env"
  define st1 where "st1 = checkSignals env c st"
  define m where "m = allreduceMax (c + 1) (peers env)"
  have s1: "st1 = scheduleSignal env c st"
    using h by (simp add: st1_def checkSignals_cases)
  have f1: "handleSignalAtStep st1 = c + 1" "signalMPI st1 = Some m"
    "signalCreateCheckpoint st1 = (signalCreateCheckpoint st \<or> createCheckpoint env)"
    "signalStopSimulation st1 = (signalStopSimulation st \<or> stopSimulation env)"
    "seqCheckpointPeriod st1 = seqCheckpointPeriod st" "descRunSteps st1 = descRunSteps st"
    "agreedStep st1 = m"
    by (simp_all add: s1 m_def scheduleSignal_fields agreedStep_scheduleSignal)
  have s2: "checkSignals env' (c + 1) st1 = applySignals st1" if "c + 1 \<noteq> 0"
    using that f1(1) by (simp add: checkSignals_cases handleSignals_def)
  have ord: "set others = set (peers env) \<longrightarrow> allreduceMax (c + 1) others = m"
    by (simp add: m_def allreduceMax_Max)
  have mx: "m = Max (insert (c + 1) (set (peers env)))"
    by (simp add: m_def allreduceMax_Max)
  have later: "c + 1 \<noteq> 0 \<longrightarrow>
        signalMaxTimestep (checkSignals env' (c + 1) st1) = m \<and>
        signalMPI (checkSignals env' (c + 1) st1) = None \<and>
        seqCheckpointPeriod (checkSignals env' (c + 1) st1)
          = (if signalCreateCheckpoint st \<or> createCheckpoint env
             then seqCheckpointPeriod st @ [mkTimeSlice m m]
             else seqCheckpointPeriod st) \<and>
        descRunSteps (checkSignals env' (c + 1) st1)
          = (if signalStopSimulation st \<or> stopSimulation env then m else descRunSteps st)"
    using s2 f1 by (simp add: applySignals_fields)
  have now: "handleSignalAtStep st1 = c + 1 \<and> handleSignalAtStep st1 \<noteq> c \<and>
     signalMPI st1 = Some m \<and>
     signalCreateCheckpoint st1 = (signalCreateCheckpoint st \<or> createCheckpoint env) \<and>
     signalStopSimulation st1 = (signalStopSimulation st \<or> stopSimulation env)"
    using f1 by simp
  show "handleSignalAtStep (checkSignals env c st) = c + 1 \<and>
     handleSignalAtStep (checkSignals env c st) \<noteq> c \<and>
     signalMPI (checkSignals env c st) = Some (allreduceMax (c + 1) (peers env)) \<and>
     allreduceMax (c + 1) (peers env) = Max (insert (c + 1) (set (peers env))) \<and>
     (set others = set (peers env) \<longrightarrow>
        allreduceMax (c + 1) others = allreduceMax (c + 1) (peers env)) \<and>
     signalCreateCheckpoint (checkSignals env c st)
       = (signalCreateCheckpoint st \<or> createCheckpoint env) \<and>
     signalStopSimulation (checkSignals env c st)
       = (signalStopSimulation st \<or> stopSimulation env) \<and>
     (c + 1 \<noteq> 0 \<longrightarrow>
        signalMaxTimestep (checkSignals env' (c + 1) (checkSignals env c st))
          = allreduceMax (c + 1) (peers env) \<and>
        signalMPI (checkSignals env' (c + 1) (checkSignals env c st)) = None \<and>
        seqCheckpointPeriod (checkSignals env' (c + 1) (checkSignals env c st))
          = (if signalCreateCheckpoint st \<or> createCheckpoint env
             then seqCheckpointPeriod st
                    @ [mkTimeSlice (allreduceMax (c + 1) (peers env))
                         (allreduceMax (c + 1) (peers env))]
             else seqCheckpointPeriod st) \<and>
        descRunSteps (checkSignals env' (c + 1) (checkSignals env c st))
          = (if signalStopSimulation st \<or> stopSimulation env
             then allreduceMax (c + 1) (peers env)
             else descRunSteps st))"
    using now later ord mx unfolding st1_def [symmetric] m_def [symmetric] by blast
qed

text \<open>
  C5. Handling a signal is permitted exactly at step 0 and at every step greater than
  \<^verbatim>\<open>handleSignalAtStep\<close>, the step for which the last decision was scheduled; a signal
  received at a permitted step starts a reduction. At any other step a pending signal has
  no effect: the call returns the same state as it does with any other answers of the
  signal module, it starts no reduction and leaves \<^verbatim>\<open>handleSignalAtStep\<close> as it was, and
  unless the scheduled decision is applied at this very step the state is unchanged.
  The call returns a state in every case, never an error.
\<close>

theorem C5_handling_permitted:
  "handleSignals st c = (c = 0 \<or> handleSignalAtStep st < c) \<and>
   (handleSignals st c \<and> received env \<longrightarrow>
      signalMPI (checkSignals env c st) = Some (allreduceMax (c + 1) (peers env))) \<and>
   (\<not> handleSignals st c \<longrightarrow>
      checkSignals env c st = checkSignals env' c st \<and>
      handleSignalAtStep (checkSignals env c st) = handleSignalAtStep st \<and>
      signalMPI (checkSignals env c st)
        = (if handleSignalAtStep st = c then None else signalMPI st) \<and>
      (handleSignalAtStep st \<noteq> c \<longrightarrow> checkSignals env c st = st))"
  by (auto simp: checkSignals_cases handleSignals_def scheduleSignal_fields applySignals_fields)

theorem C4_schedule_at_next_step_witness:
  "handleSignals (newSimulationHelper 0 Map.empty (\<lambda>p. True)) 3 \<and>
   handleSignalAtStep
     (checkSignals \<lparr>received = True, createCheckpoint = True, stopSimulation = True, peers = [6, 2]\<rparr> 3
        (newSimulationHelper 0 Map.empty (\<lambda>p. True))) = 4 \<and>
   signalMPI
     (checkSignals \<lparr>received = True, createCheckpoint = True, stopSimulation = True, peers = [6, 2]\<rparr> 3
        (newSimulationHelper 0 Map.empty (\<lambda>p. True))) = Some 6 \<and>
   seqCheckpointPeriod
     (checkSignals \<lparr>received = False, createCheckpoint = False, stopSimulation = False, peers = []\<rparr> 4
        (checkSignals \<lparr>received = True, createCheckpoint = True, stopSimulation = True, peers = [6, 2]\<rparr> 3
           (newSimulationHelper 0 Map.empty (\<lambda>p. True)))) = [mkTimeSlice 6 6] \<and>
   descRunSteps
     (checkSignals \<lparr>received = False, createCheckpoint = False, stopSimulation = False, peers = []\<rparr> 4
        (checkSignals \<lparr>received = True, createCheckpoint = True, stopSimulation = True, peers = [6, 2]\<rparr> 3
           (newSimulationHelper 0 Map.empty (\<lambda>p. True)))) = 6"
proof -
  have h: "handleSignals (newSimulationHelper 0 Map.empty (\<lambda>p. True)) 3"
    by (simp add: handleSignals_def newSimulationHelper_def)
  have m: "allreduceMax (3 + 1) [6, 2] = (6 :: uint32_t)"
    by (simp add: allreduceMax_def)
  have i: "seqCheckpointPeriod (newSimulationHelper 0 Map.empty (\<lambda>p. True)) = []"
    by (simp add: newSimulationHelper_def)
  show ?thesis
    using C4_schedule_at_next_step [of "newSimulationHelper 0 Map.empty (\<lambda>p. True)" 3
        "\<lparr>received = True, createCheckpoint = True, stopSimulation = True, peers = [6, 2]\<rparr>"
        "[2, 6]"
        "\<lparr>received = False, createCheckpoint = False, stopSimulation = False, peers = []\<rparr>"]
      h m i
    by simp
qed

theorem C5_handling_permitted_witness:
  "handleSignals (newSimulationHelper 0 Map.empty (\<lambda>p. True)) 4 \<and>
   signalMPI
     (checkSignals \<lparr>received = True, createCheckpoint = True, stopSimulation = False, peers = []\<rparr> 4
        (newSimulationHelper 0 Map.empty (\<lambda>p. True))) = Some 5 \<and>
   \<not> handleSignals
      (checkSignals \<lparr>received = True, createCheckpoint = True, stopSimulation = False, peers = []\<rparr> 4
         (newSimulationHelper 0 Map.empty (\<lambda>p. True))) 5 \<and>
   checkSignals \<lparr>received = True, createCheckpoint = False, stopSimulation = True, peers = [9]\<rparr> 5
      (checkSignals \<lparr>received = True, createCheckpoint = True, stopSimulation = False, peers = []\<rparr> 4
         (newSimulationHelper 0 Map.empty (\<lambda>p. True)))
     = checkSignals \<lparr>received = False, createCheckpoint = False, stopSimulation = False, peers = []\<rparr> 5
         (checkSignals \<lparr>received = True, createCheckpoint = True, stopSimulation = False, peers = []\<rparr> 4
            (newSimulationHelper 0 Map.empty (\<lambda>p. True))) \<and>
   checkSignals \<lparr>received = True, createCheckpoint = False, stopSimulation = True, peers = [9]\<rparr> 3
      (checkSignals \<lparr>received = True, createCheckpoint = True, stopSimulation = False, peers = []\<rparr> 4
         (newSimulationHelper 0 Map.empty (\<lambda>p. True)))
     = checkSignals \<lparr>received = True, createCheckpoint = True, stopSimulation = False, peers = []\<rparr> 4
         (newSimulationHelper 0 Map.empty (\<lambda>p. True))"
proof -
  define st0 where "st0 = newSimulationHelper 0 Map.empty (\<lambda>p. True)"
  define st1 where "st1 = checkSignals
      \<lparr>received = True, createCheckpoint = True, stopSimulation = False, peers = []\<rparr> 4 st0"
  have h0: "handleSignals st0 4"
    by (simp add: st0_def handleSignals_def newSimulationHelper_def)
  have m: "signalMPI st1 = Some 5"
    using h0 C5_handling_permitted [of st0 4
        "\<lparr>received = True, createCheckpoint = True, stopSimulation = False, peers = []\<rparr>"]
    by (simp add: st1_def allreduceMax_def)
  have h: "handleSignalAtStep st1 = 5"
    using h0 by (simp add: st1_def checkSignals_cases scheduleSignal_fields)
  have n5: "\<not> handleSignals st1 5" and n3: "\<not> handleSignals st1 3"
    using h by (simp_all add: handleSignals_def)
  have a: "checkSignals \<lparr>received = True, createCheckpoint = False, stopSimulation = True, peers = [9]\<rparr> 5 st1
           = checkSignals \<lparr>received = False, createCheckpoint = False, stopSimulation = False, peers = []\<rparr> 5 st1"
    using n5 C5_handling_permitted [of st1 5
        "\<lparr>received = True, createCheckpoint = False, stopSimulation = True, peers = [9]\<rparr>"
        "\<lparr>received = False, createCheckpoint = False, stopSimulation = False, peers = []\<rparr>"]
    by blast
  have "handleSignalAtStep st1 \<noteq> 3" using h by simp
  then have b: "checkSignals \<lparr>received = True, createCheckpoint = False, stopSimulation = True, peers = [9]\<rparr> 3 st1
           = st1"
    using n3 C5_handling_permitted [of st1 3
        "\<lparr>received = True, createCheckpoint = False, stopSimulation = True, peers = [9]\<rparr>"
        "\<lparr>received = False, createCheckpoint = False, stopSimulation = False, peers = []\<rparr>"]
    by blast
  show ?thesis
    using h0 m n5 a b unfolding st1_def [symmetric] st0_def [symmetric] by blast
qed

section \<open>Writing a checkpoint\<close>

lemma writeCheckpointStep_result:
  "writeCheckpointStep s st =
     (if fsAppendable st (masterFileOf (checkpointDirectory st))
      then Inr (st\<lparr>fsFiles := (fsFiles st)(masterFileOf (checkpointDirectory st) \<mapsto>
                  masterFileContent st @ decimal (unat s) @ [newline])\<rparr>)
      else Inl (RuntimeError ''Failed to write checkpoint master file''))"
  by (simp add: writeCheckpointStep_def masterFileContent_def Let_def)

lemma dumpOneStep_not_due: "\<not> checkpointDue st c \<Longrightarrow> dumpOneStep c st = Inr st"
  by (simp add: dumpOneStep_def)

lemma dumpOneStep_error:
  "(dumpOneStep c st = Inl e) =
     (checkpointDue st c \<and> globalRank st = 0 \<and>
      \<not> fsAppendable st (masterFileOf (checkpointDirectory st)) \<and>
      e = RuntimeError ''Failed to write checkpoint master file'')"
  by (auto simp: dumpOneStep_def writeCheckpointStep_def emit_def Let_def)

lemma dumpOneStep_due:
  assumes "checkpointDue st c" "dumpOneStep c st = Inr st'"
  shows "st' = st\<lparr>trace := trace st @ [DeviceSynchronize, WaitForFinished, Barrier]
                     @ (if numCheckpoints st = 0
                        then [CreateDirectoryWithPermissions (checkpointDirectory st)] else [])
                     @ [CheckpointPlugins c (checkpointDirectory st),
                        DeviceSynchronize, WaitForFinished, Barrier],
                   fsFiles := (if globalRank st = 0
                               then (fsFiles st)(masterFileOf (checkpointDirectory st) \<mapsto>
                                      masterFileContent st @ decimal (unat c) @ [newline])
                               else fsFiles st),
                   numCheckpoints := numCheckpoints st + 1\<rparr>"
  using assms
  by (auto simp: dumpOneStep_def writeCheckpointStep_def masterFileContent_def emit_def Let_def
      split: if_splits)

text \<open>
  C3, as amended. When \<^verbatim>\<open>dumpOneStep\<close> returns, the checkpoint master file has been
  appended to on the rank with global rank 0 only: on every other rank the files are as
  before, on rank 0 a checkpoint that was due has added its step as one line. The counter
  \<^verbatim>\<open>numCheckpoints\<close> is incremented on every rank on which the checkpoint was due.
\<close>

theorem C3_log_on_rank_zero_count_everywhere:
  "dumpOneStep c st = Inr st' \<longrightarrow>
     (globalRank st \<noteq> 0 \<longrightarrow> fsFiles st' = fsFiles st) \<and>
     (globalRank st = 0 \<and> checkpointDue st c \<longrightarrow>
        fsFiles st' = (fsFiles st)(masterFileOf (checkpointDirectory st) \<mapsto>
                         masterFileContent st @ decimal (unat c) @ [newline])) \<and>
     numCheckpoints st'
       = (if checkpointDue st c then numCheckpoints st + 1 else numCheckpoints st)"
proof (cases "checkpointDue st c")
  case True
  show ?thesis
  proof
    assume r: "dumpOneStep c st = Inr st'"
    show "(globalRank st \<noteq> 0 \<longrightarrow> fsFiles st' = fsFiles st) \<and>
     (globalRank st = 0 \<and> checkpointDue st c \<longrightarrow>
        fsFiles st' = (fsFiles st)(masterFileOf (checkpointDirectory st) \<mapsto>
                         masterFileContent st @ decimal (unat c) @ [newline])) \<and>
     numCheckpoints st'
       = (if checkpointDue st c then numCheckpoints st + 1 else numCheckpoints st)"
      by (simp add: dumpOneStep_due [OF True r] True)
  qed
next
  case False
  then show ?thesis by (auto simp: dumpOneStep_not_due)
qed

theorem C3_log_on_rank_zero_count_everywhere_witness:
  "(case dumpOneStep 3
      ((newSimulationHelper 1 Map.empty (\<lambda>p. True))
         \<lparr>checkpointPeriod := ''3'',
          seqCheckpointPeriod := [\<lparr>sliceStart = 0, sliceEnd = 4294967295, sliceStride = Some 3\<rparr>]\<rparr>) of
      Inl e \<Rightarrow> False
    | Inr st' \<Rightarrow> fsFiles st' = Map.empty \<and> numCheckpoints st' = 1) \<and>
   (case dumpOneStep 3
      ((newSimulationHelper 0 Map.empty (\<lambda>p. True))
         \<lparr>checkpointPeriod := ''3'',
          seqCheckpointPeriod := [\<lparr>sliceStart = 0, sliceEnd = 4294967295, sliceStride = Some 3\<rparr>]\<rparr>) of
      Inl e \<Rightarrow> False
    | Inr st' \<Rightarrow>
        fsFiles st' = [''checkpoints/checkpoints.txt'' \<mapsto> ''3'' @ [newline]] \<and>
        numCheckpoints st' = 1)"
proof -
  define st1 where "st1 = (newSimulationHelper 1 Map.empty (\<lambda>p. True))
         \<lparr>checkpointPeriod := ''3'',
          seqCheckpointPeriod := [\<lparr>sliceStart = 0, sliceEnd = 4294967295, sliceStride = Some 3\<rparr>]\<rparr>"
  define st0 where "st0 = (newSimulationHelper 0 Map.empty (\<lambda>p. True))
         \<lparr>checkpointPeriod := ''3'',
          seqCheckpointPeriod := [\<lparr>sliceStart = 0, sliceEnd = 4294967295, sliceStride = Some 3\<rparr>]\<rparr>"
  have due: "checkpointDue st1 3" "checkpointDue st0 3"
    by (simp_all add: st1_def st0_def checkpointDue_def inTimeSlice_def newSimulationHelper_def)
  have f1: "globalRank st1 = 1" "fsFiles st1 = Map.empty" "numCheckpoints st1 = 0"
    by (simp_all add: st1_def newSimulationHelper_def)
  have f0: "globalRank st0 = 0" "fsFiles st0 = Map.empty" "numCheckpoints st0 = 0"
    "fsAppendable st0 (masterFileOf (checkpointDirectory st0))"
    "masterFileOf (checkpointDirectory st0) = ''checkpoints/checkpoints.txt''"
    "masterFileContent st0 = []"
    by (simp_all add: st0_def newSimulationHelper_def masterFileOf_def CHECKPOINT_MASTER_FILE_def
        masterFileContent_def)
  have d3: "decimal (unat (3 :: uint32_t)) = ''3''"
    by (simp add: decimal.simps digit_char_def)
  obtain st1' where r1: "dumpOneStep 3 st1 = Inr st1'"
    using dumpOneStep_error [of 3 st1] f1 by (cases "dumpOneStep 3 st1") auto
  obtain st0' where r0: "dumpOneStep 3 st0 = Inr st0'"
    using dumpOneStep_error [of 3 st0] f0 by (cases "dumpOneStep 3 st0") auto
  have a: "fsFiles st1' = Map.empty \<and> numCheckpoints st1' = 1"
    using C3_log_on_rank_zero_count_everywhere [of 3 st1 st1'] r1 due f1 by simp
  have b: "fsFiles st0' = [''checkpoints/checkpoints.txt'' \<mapsto> ''3'' @ [newline]] \<and>
           numCheckpoints st0' = 1"
    using C3_log_on_rank_zero_count_everywhere [of 3 st0 st0'] r0 due f0 d3 by simp
  show ?thesis
    using a b r0 r1 unfolding st1_def [symmetric] st0_def [symmetric] by simp
qed

text \<open>
  C3 as stated fails: on rank 1 a checkpoint at step 3 leaves \<^verbatim>\<open>numCheckpoints\<close> changed.
\<close>

theorem C3_count_on_other_ranks_counterexample:
  "(case dumpOneStep 3
      ((newSimulationHelper 1 Map.empty (\<lambda>p. True))
         \<lparr>checkpointPeriod := ''3'',
          seqCheckpointPeriod := [\<lparr>sliceStart = 0, sliceEnd = 4294967295, sliceStride = Some 3\<rparr>]\<rparr>) of
      Inl e \<Rightarrow> False
    | Inr st' \<Rightarrow>
        numCheckpoints st'
          \<noteq> numCheckpoints
              ((newSimulationHelper 1 Map.empty (\<lambda>p. True))
                 \<lparr>checkpointPeriod := ''3'',
                  seqCheckpointPeriod :=
                    [\<lparr>sliceStart = 0, sliceEnd = 4294967295, sliceStride = Some 3\<rparr>]\<rparr>))"
  by (simp add: dumpOneStep_def checkpointDue_def inTimeSlice_def newSimulationHelper_def
      emit_def Let_def)

text \<open>
  A turn of the loop over the steps, or a pass of the loop over the soft restarts, that
  throws ends the loop with the error, however many turns went before.
\<close>

lemma simulationLoop_step:
  "simulationLoop env c st =
     (if c < descRunSteps st
      then (case simulationStep env c st of
              Inl e \<Rightarrow> Inl e
            | Inr st3 \<Rightarrow> simulationLoop env (c + 1) st3)
      else Inr (c, st))"
  by (simp add: simulationLoop.simps [of env c st] simulationStep_def split: sum.splits)

lemma simulationLoop_after_prefix:
  "loopPrefix k env c st = Some (ck, stk) \<Longrightarrow>
   simulationLoop env c st = simulationLoop env ck stk"
proof (induction k arbitrary: c st)
  case 0
  then show ?case by simp
next
  case (Suc k)
  from Suc.prems obtain st3 where
    g: "c < descRunSteps st" and
    s: "simulationStep env c st = Inr st3" and
    r: "loopPrefix k env (c + 1) st3 = Some (ck, stk)"
    by (auto split: if_splits sum.splits)
  have "simulationLoop env c st = simulationLoop env (c + 1) st3"
    using g s by (simp add: simulationLoop_step [of env c st])
  then show ?case using Suc.IH [OF r] by simp
qed

lemma softRestartLoop_after_prefix:
  "passPrefix k env pass n st = Some (pk, nk, stk) \<Longrightarrow>
   softRestartLoop (k + fuel) env pass n st = softRestartLoop fuel env pk nk stk"
proof (induction k arbitrary: pass n st)
  case 0
  then show ?case by simp
next
  case (Suc k)
  from Suc.prems obtain st1 where
    g: "n \<le> softRestarts st" and
    p: "softRestartPass env pass st = Inr st1" and
    r: "passPrefix k env (Suc pass) (n + 1) st1 = Some (pk, nk, stk)"
    by (auto split: if_splits sum.splits)
  have "softRestartLoop (Suc k + fuel) env pass n st
          = softRestartLoop (k + fuel) env (Suc pass) (n + 1) st1"
    using g p by simp
  then show ?case using Suc.IH [OF r] by simp
qed

lemma simulationLoop_fails_at:
  assumes "loopPrefix k env c st = Some (ck, stk)" "ck < descRunSteps stk"
    "simulationStep env ck stk = Inl e"
  shows "simulationLoop env c st = Inl e"
  using simulationLoop_after_prefix [OF assms(1)] assms(2,3)
  by (simp add: simulationLoop_step [of env ck stk])

lemma softRestartLoop_fails_at:
  assumes "passPrefix k env pass n st = Some (pk, nk, stk)" "nk \<le> softRestarts stk"
    "softRestartPass env pk stk = Inl e"
  shows "softRestartLoop (k + Suc fuel) env pass n st = Some (Inl e)"
  using softRestartLoop_after_prefix [OF assms(1), of "Suc fuel"] assms(2,3) by simp


lemma softRestartPass_loop_error:
  assumes "(if \<not> restartRequested st
     then dumpOneStep (fillSimulation env pass)
            (notifyPlugins (signalsAt env pass (fillSimulation env pass)) (fillSimulation env pass)
               (emit [ResetAll 0, FillSimulation, MovingWindowCheck (fillSimulation env pass)] st))
     else Inr (emit [ResetAll 0, FillSimulation, MovingWindowCheck (fillSimulation env pass)] st))
      = Inr st3"
    "dumpTimes (fillSimulation env pass) st3 = Inr st4"
    "simulationLoop (signalsAt env pass) (fillSimulation env pass) st4 = Inl e"
  shows "softRestartPass env pass st = Inl e"
  using assms by (simp add: softRestartPass_def Let_def emit_def split: if_splits)

lemma startSimulation_error:
  assumes "toTimeSlice env (checkpointPeriod st) = Some seq"
    "softRestartLoop fuel env 0 0
      ((emit [SignalActivate, Init] (if useMpiDirect st then emit [EnableMpiDirect] st else st))
         \<lparr>seqCheckpointPeriod := seq\<rparr>) = Some (Inl e)"
  shows "startSimulation fuel env st = Some (Inl e)"
  using assms by (cases "useMpiDirect st") (simp_all add: startSimulation_def Let_def emit_def)

lemma startSimulation_fails_at:
  assumes "toTimeSlice env (checkpointPeriod st) = Some seq"
    "passPrefix k env 0 0
      ((emit [SignalActivate, Init] (if useMpiDirect st then emit [EnableMpiDirect] st else st))
         \<lparr>seqCheckpointPeriod := seq\<rparr>) = Some (pk, nk, stp)"
    "nk \<le> softRestarts stp"
    "(if \<not> restartRequested stp
     then dumpOneStep (fillSimulation env pk)
            (notifyPlugins (signalsAt env pk (fillSimulation env pk)) (fillSimulation env pk)
               (emit [ResetAll 0, FillSimulation, MovingWindowCheck (fillSimulation env pk)] stp))
     else Inr (emit [ResetAll 0, FillSimulation, MovingWindowCheck (fillSimulation env pk)] stp))
      = Inr st3"
    "dumpTimes (fillSimulation env pk) st3 = Inr st4"
    "loopPrefix j (signalsAt env pk) (fillSimulation env pk) st4 = Some (cj, stj)"
    "cj < descRunSteps stj"
    "simulationStep (signalsAt env pk) cj stj = Inl e"
  shows "startSimulation (k + Suc fuel) env st = Some (Inl e)"
proof -
  have "simulationLoop (signalsAt env pk) (fillSimulation env pk) st4 = Inl e"
    using assms(6,7,8) by (rule simulationLoop_fails_at)
  then have "softRestartPass env pk stp = Inl e"
    using assms(4,5) softRestartPass_loop_error by blast
  then have "softRestartLoop (k + Suc fuel) env 0 0
      ((emit [SignalActivate, Init] (if useMpiDirect st then emit [EnableMpiDirect] st else st))
         \<lparr>seqCheckpointPeriod := seq\<rparr>) = Some (Inl e)"
    using assms(2,3) softRestartLoop_fails_at by blast
  then show ?thesis using assms(1) by (rule startSimulation_error [rotated])
qed

text \<open>
  C8. \<^verbatim>\<open>writeCheckpointStep\<close> throws iff the master file cannot be opened for appending.
  The exception leaves \<^verbatim>\<open>dumpOneStep\<close> (on rank 0, when the checkpoint is due) and with it
  the turn of the loop over the steps. A turn that throws after any number \<open>k\<close> of complete
  turns ends the loop over the steps with the error; the error leaves the pass of a soft
  restart; a pass that throws after any number \<open>k\<close> of complete passes ends the loop over
  the soft restarts with the error, and the error is the result of \<^verbatim>\<open>startSimulation\<close>.
  Taken together: a turn that throws, after \<open>j\<close> complete turns of the pass that follows
  \<open>k\<close> complete passes, makes \<^verbatim>\<open>startSimulation\<close> end with the error.
\<close>

theorem C8_write_failure_is_fatal:
  "((\<exists>e. writeCheckpointStep s st = Inl e)
      = (\<not> fsAppendable st (masterFileOf (checkpointDirectory st)))) \<and>
   (\<not> fsAppendable st (masterFileOf (checkpointDirectory st)) \<longrightarrow>
      writeCheckpointStep s st = Inl (RuntimeError ''Failed to write checkpoint master file'')) \<and>
   (checkpointDue st c \<and> globalRank st = 0 \<and>
    \<not> fsAppendable st (masterFileOf (checkpointDirectory st)) \<longrightarrow>
      dumpOneStep c st = Inl (RuntimeError ''Failed to write checkpoint master file'')) \<and>
   (dumpTimes (c + 1) (emit [RunOneStep c] st) = Inr st2 \<and>
    dumpOneStep (c + 1)
      (notifyPlugins (envs (c + 1)) (c + 1) (emit [MovingWindowCheck (c + 1)] st2)) = Inl e \<longrightarrow>
      simulationStep envs c st = Inl e) \<and>
   (loopPrefix k envs c st = Some (ck, stk) \<and> ck < descRunSteps stk \<and>
    simulationStep envs ck stk = Inl e \<longrightarrow>
      simulationLoop envs c st = Inl e) \<and>
   (\<not> restartRequested st \<and>
    dumpOneStep (fillSimulation env pass)
      (notifyPlugins (signalsAt env pass (fillSimulation env pass)) (fillSimulation env pass)
         (emit [ResetAll 0, FillSimulation, MovingWindowCheck (fillSimulation env pass)] st))
      = Inl e \<longrightarrow>
      softRestartPass env pass st = Inl e) \<and>
   ((if \<not> restartRequested st
     then dumpOneStep (fillSimulation env pass)
            (notifyPlugins (signalsAt env pass (fillSimulation env pass)) (fillSimulation env pass)
               (emit [ResetAll 0, FillSimulation, MovingWindowCheck (fillSimulation env pass)] st))
     else Inr (emit [ResetAll 0, FillSimulation, MovingWindowCheck (fillSimulation env pass)] st))
      = Inr st3 \<and>
    dumpTimes (fillSimulation env pass) st3 = Inr st4 \<and>
    simulationLoop (signalsAt env pass) (fillSimulation env pass) st4 = Inl e \<longrightarrow>
      softRestartPass env pass st = Inl e) \<and>
   (passPrefix k env pass n st = Some (pk, nk, stp) \<and> nk \<le> softRestarts stp \<and>
    softRestartPass env pk stp = Inl e \<longrightarrow>
      softRestartLoop (k + Suc fuel) env pass n st = Some (Inl e)) \<and>
   (toTimeSlice env (checkpointPeriod st) = Some seq \<and>
    softRestartLoop fuel env 0 0
      ((emit [SignalActivate, Init] (if useMpiDirect st then emit [EnableMpiDirect] st else st))
         \<lparr>seqCheckpointPeriod := seq\<rparr>) = Some (Inl e) \<longrightarrow>
      startSimulation fuel env st = Some (Inl e)) \<and>
   (toTimeSlice env (checkpointPeriod st) = Some seq \<and>
    passPrefix k env 0 0
      ((emit [SignalActivate, Init] (if useMpiDirect st then emit [EnableMpiDirect] st else st))
         \<lparr>seqCheckpointPeriod := seq\<rparr>) = Some (pk, nk, stp) \<and>
    nk \<le> softRestarts stp \<and>
    (if \<not> restartRequested stp
     then dumpOneStep (fillSimulation env pk)
            (notifyPlugins (signalsAt env pk (fillSimulation env pk)) (fillSimulation env pk)
               (emit [ResetAll 0, FillSimulation, MovingWindowCheck (fillSimulation env pk)] stp))
     else Inr (emit [ResetAll 0, FillSimulation, MovingWindowCheck (fillSimulation env pk)] stp))
      = Inr st5 \<and>
    dumpTimes (fillSimulation env pk) st5 = Inr st6 \<and>
    loopPrefix j (signalsAt env pk) (fillSimulation env pk) st6 = Some (cj, stj) \<and>
    cj < descRunSteps stj \<and>
    simulationStep (signalsAt env pk) cj stj = Inl e \<longrightarrow>
      startSimulation (k + Suc fuel) env st = Some (Inl e))"
proof -
  have a: "(\<exists>e. writeCheckpointStep s st = Inl e)
      = (\<not> fsAppendable st (masterFileOf (checkpointDirectory st)))"
    by (simp add: writeCheckpointStep_result)
  have b: "\<not> fsAppendable st (masterFileOf (checkpointDirectory st)) \<longrightarrow>
      writeCheckpointStep s st = Inl (RuntimeError ''Failed to write checkpoint master file'')"
    by (simp add: writeCheckpointStep_result)
  have c: "checkpointDue st c \<and> globalRank st = 0 \<and>
    \<not> fsAppendable st (masterFileOf (checkpointDirectory st)) \<longrightarrow>
      dumpOneStep c st = Inl (RuntimeError ''Failed to write checkpoint master file'')"
    by (simp add: dumpOneStep_error)
  have d: "dumpTimes (c + 1) (emit [RunOneStep c] st) = Inr st2 \<and>
    dumpOneStep (c + 1)
      (notifyPlugins (envs (c + 1)) (c + 1) (emit [MovingWindowCheck (c + 1)] st2)) = Inl e \<longrightarrow>
      simulationStep envs c st = Inl e"
    by (simp add: simulationStep_def)
  have l: "loopPrefix k envs c st = Some (ck, stk) \<and> ck < descRunSteps stk \<and>
    simulationStep envs ck stk = Inl e \<longrightarrow>
      simulationLoop envs c st = Inl e"
    using simulationLoop_fails_at [of k envs c st ck stk e] by blast
  have p: "\<not> restartRequested st \<and>
    dumpOneStep (fillSimulation env pass)
      (notifyPlugins (signalsAt env pass (fillSimulation env pass)) (fillSimulation env pass)
         (emit [ResetAll 0, FillSimulation, MovingWindowCheck (fillSimulation env pass)] st))
      = Inl e \<longrightarrow>
      softRestartPass env pass st = Inl e"
    by (simp add: softRestartPass_def Let_def emit_def)
  have q: "(if \<not> restartRequested st
     then dumpOneStep (fillSimulation env pass)
            (notifyPlugins (signalsAt env pass (fillSimulation env pass)) (fillSimulation env pass)
               (emit [ResetAll 0, FillSimulation, MovingWindowCheck (fillSimulation env pass)] st))
     else Inr (emit [ResetAll 0, FillSimulation, MovingWindowCheck (fillSimulation env pass)] st))
      = Inr st3 \<and>
    dumpTimes (fillSimulation env pass) st3 = Inr st4 \<and>
    simulationLoop (signalsAt env pass) (fillSimulation env pass) st4 = Inl e \<longrightarrow>
      softRestartPass env pass st = Inl e"
    by (simp add: softRestartPass_def Let_def emit_def split: if_splits)
  have r: "passPrefix k env pass n st = Some (pk, nk, stp) \<and> nk \<le> softRestarts stp \<and>
    softRestartPass env pk stp = Inl e \<longrightarrow>
      softRestartLoop (k + Suc fuel) env pass n st = Some (Inl e)"
    using softRestartLoop_fails_at [of k env pass n st pk nk stp e fuel] by blast
  have f: "toTimeSlice env (checkpointPeriod st) = Some seq \<and>
    softRestartLoop fuel env 0 0
      ((emit [SignalActivate, Init] (if useMpiDirect st then emit [EnableMpiDirect] st else st))
         \<lparr>seqCheckpointPeriod := seq\<rparr>) = Some (Inl e) \<longrightarrow>
      startSimulation fuel env st = Some (Inl e)"
    by (simp add: startSimulation_def Let_def emit_def)
  have g: "toTimeSlice env (checkpointPeriod st) = Some seq \<and>
    passPrefix k env 0 0
      ((emit [SignalActivate, Init] (if useMpiDirect st then emit [EnableMpiDirect] st else st))
         \<lparr>seqCheckpointPeriod := seq\<rparr>) = Some (pk, nk, stp) \<and>
    nk \<le> softRestarts stp \<and>
    (if \<not> restartRequested stp
     then dumpOneStep (fillSimulation env pk)
            (notifyPlugins (signalsAt env pk (fillSimulation env pk)) (fillSimulation env pk)
               (emit [ResetAll 0, FillSimulation, MovingWindowCheck (fillSimulation env pk)] stp))
     else Inr (emit [ResetAll 0, FillSimulation, MovingWindowCheck (fillSimulation env pk)] stp))
      = Inr st5 \<and>
    dumpTimes (fillSimulation env pk) st5 = Inr st6 \<and>
    loopPrefix j (signalsAt env pk) (fillSimulation env pk) st6 = Some (cj, stj) \<and>
    cj < descRunSteps stj \<and>
    simulationStep (signalsAt env pk) cj stj = Inl e \<longrightarrow>
      startSimulation (k + Suc fuel) env st = Some (Inl e)"
    using startSimulation_fails_at [of env st seq k pk nk stp st5 st6 j cj stj e fuel] by blast
  show ?thesis using a b c d l p q r f g by blast
qed

theorem C8_write_failure_is_fatal_witness:
  "startSimulation (Suc (Suc 0))
     \<lparr>toTimeSlice = (\<lambda>s. Some [\<lparr>sliceStart = 2, sliceEnd = 2, sliceStride = None\<rparr>]),
      fillSimulation = (\<lambda>pass. if pass = 0 then 3 else 0),
      signalsAt = (\<lambda>pass step. \<lparr>received = False, createCheckpoint = False,
                                   stopSimulation = False, peers = []\<rparr>)\<rparr>
     ((newSimulationHelper 0 Map.empty (\<lambda>p. False))
        \<lparr>checkpointPeriod := ''2:2'', descRunSteps := 4, softRestarts := 1\<rparr>)
     = Some (Inl (RuntimeError ''Failed to write checkpoint master file'')) \<and>
   softRestartPass
     \<lparr>toTimeSlice = (\<lambda>s. Some [\<lparr>sliceStart = 2, sliceEnd = 2, sliceStride = None\<rparr>]),
      fillSimulation = (\<lambda>pass. if pass = 0 then 3 else 0),
      signalsAt = (\<lambda>pass step. \<lparr>received = False, createCheckpoint = False,
                                   stopSimulation = False, peers = []\<rparr>)\<rparr>
     1
     ((newSimulationHelper 0 Map.empty (\<lambda>p. False))
        \<lparr>checkpointPeriod := ''0:4294967295'',
         seqCheckpointPeriod := [\<lparr>sliceStart = 0, sliceEnd = 4294967295, sliceStride = Some 1\<rparr>],
         descRunSteps := 2\<rparr>)
     = Inl (RuntimeError ''Failed to write checkpoint master file'')"
proof -
  define quiet where "quiet =
    \<lparr>received = False, createCheckpoint = False, stopSimulation = False, peers = []\<rparr>"
  define seq where "seq = [\<lparr>sliceStart = 2, sliceEnd = 2, sliceStride = (None :: uint32_t option)\<rparr>]"
  define env where "env =
     \<lparr>toTimeSlice = (\<lambda>s :: string. Some seq),
      fillSimulation = (\<lambda>pass :: nat. if pass = 0 then 3 else 0 :: uint32_t),
      signalsAt = (\<lambda>(pass :: nat) (step :: uint32_t). quiet)\<rparr>"
  define e where "e = RuntimeError ''Failed to write checkpoint master file''"
  define st where "st = (newSimulationHelper 0 Map.empty (\<lambda>p. False))
        \<lparr>checkpointPeriod := ''2:2'', descRunSteps := 4, softRestarts := 1\<rparr>"
  define sB where "sB = (emit [SignalActivate, Init] (if useMpiDirect st then emit [EnableMpiDirect] st else st))
         \<lparr>seqCheckpointPeriod := seq\<rparr>"
  (* the first pass, from step 3 to step 4, takes no checkpoint *)
  define sP where "sP = emit [WaitForAllTasks]
      (notifyPlugins quiet 4 (emit [MovingWindowCheck 4] (emit [RunOneStep 3]
         (notifyPlugins quiet 3 (emit [ResetAll 0, FillSimulation, MovingWindowCheck 3] sB)))))"
  (* the second pass starts at step 0; its checkpoint at step 2 cannot be recorded *)
  define s0 where "s0 = notifyPlugins quiet 0 (emit [ResetAll 0, FillSimulation, MovingWindowCheck 0] sP)"
  define s1 where "s1 = notifyPlugins quiet 1 (emit [MovingWindowCheck 1] (emit [RunOneStep 0] s0))"
  define sN where "sN = notifyPlugins quiet (1 + 1) (emit [MovingWindowCheck (1 + 1)] (emit [RunOneStep 1] s1))"
  have w: "\<not> (2 :: uint32_t) \<le> 1" "\<not> (3 :: uint32_t) \<le> 2" "\<not> (4 :: uint32_t) \<le> 2"
    "(1 :: uint32_t) < 4" "(3 :: uint32_t) < 4"
    by (simp_all add: word_le_nat_alt word_less_nat_alt)
  note defs = sN_def s1_def s0_def sP_def sB_def st_def seq_def quiet_def w
  have env0: "fillSimulation env 1 = 0" "signalsAt env 1 = (\<lambda>step. quiet)"
    "toTimeSlice env (checkpointPeriod st) = Some seq"
    by (simp_all add: env_def)
  have env1: "fillSimulation env (Suc 0) = 0" "signalsAt env (Suc 0) = (\<lambda>step. quiet)"
    by (simp_all add: env_def)
  have n: "checkpointDue sN (1 + 1) \<and> globalRank sN = 0 \<and>
           \<not> fsAppendable sN (masterFileOf (checkpointDirectory sN))"
    by (simp add: defs run_defs)
  have f1: "dumpOneStep (1 + 1) sN = Inl e"
    unfolding e_def
    using C8_write_failure_is_fatal [where st = sN and c = "1 + 1", THEN conjunct2, THEN conjunct2, THEN conjunct1] n
    by blast
  have f2: "dumpTimes (1 + 1) (emit [RunOneStep 1] s1) = Inr (emit [RunOneStep 1] s1)"
    by (simp add: defs run_defs)
  have f3: "simulationStep (\<lambda>step. quiet) 1 s1 = Inl e"
    using C8_write_failure_is_fatal [where st = s1 and c = 1 and ?st2.0 = "emit [RunOneStep 1] s1"
        and envs = "\<lambda>step. quiet" and e = e, THEN conjunct2, THEN conjunct2, THEN conjunct2, THEN conjunct1]
      f1 f2 unfolding sN_def by blast
  (* one complete turn of the loop precedes the failing one *)
  have f4: "loopPrefix (Suc 0) (\<lambda>step. quiet) 0 s0 = Some (1, s1)"
    by (simp add: simulationStep_def defs run_defs)
  have f5: "1 < descRunSteps s1"
    by (simp add: defs run_defs word_less_nat_alt)
  have l: "simulationLoop (\<lambda>step. quiet) 0 s0 = Inl e"
    using C8_write_failure_is_fatal [where k = "Suc 0" and envs = "\<lambda>step. quiet" and c = 0
        and st = s0 and ck = 1 and stk = s1 and e = e, THEN conjunct2, THEN conjunct2, THEN conjunct2, THEN conjunct2, THEN conjunct1]
      f3 f4 f5 by blast
  have f6: "(if \<not> restartRequested sP
     then dumpOneStep (fillSimulation env 1)
            (notifyPlugins (signalsAt env 1 (fillSimulation env 1)) (fillSimulation env 1)
               (emit [ResetAll 0, FillSimulation, MovingWindowCheck (fillSimulation env 1)] sP))
     else Inr (emit [ResetAll 0, FillSimulation, MovingWindowCheck (fillSimulation env 1)] sP))
      = Inr s0"
    unfolding env0 by (simp add: defs run_defs)
  have f7: "dumpTimes (fillSimulation env 1) s0 = Inr s0"
    unfolding env0 by (simp add: defs run_defs)
  have p: "softRestartPass env 1 sP = Inl e"
    using C8_write_failure_is_fatal [where st = sP and e = e and env = env and pass = 1
        and ?st3.0 = s0 and ?st4.0 = s0, THEN conjunct2, THEN conjunct2, THEN conjunct2, THEN conjunct2, THEN conjunct2, THEN conjunct2, THEN conjunct1]
      f6 f7 l
    unfolding env0 by blast
  (* one complete pass precedes the failing one *)
  have f8: "passPrefix (Suc 0) env 0 0 sB = Some (Suc 0, 1, sP)"
    by (simp add: env_def simulationLoop.simps defs run_defs word_less_nat_alt)
  have f9: "1 \<le> softRestarts sP"
    by (simp add: defs run_defs)
  have r: "softRestartLoop (Suc 0 + Suc 0) env 0 0 sB = Some (Inl e)"
    using C8_write_failure_is_fatal [where k = "Suc 0" and env = env and pass = 0 and n = 0
        and st = sB and pk = "Suc 0" and nk = 1 and stp = sP and e = e and fuel = 0, THEN conjunct2, THEN conjunct2, THEN conjunct2, THEN conjunct2, THEN conjunct2, THEN conjunct2, THEN conjunct2, THEN conjunct1]
      f8 f9 p by simp
  have a: "startSimulation (Suc (Suc 0)) env st = Some (Inl e)"
    using C8_write_failure_is_fatal [where st = st and e = e and env = env
        and fuel = "Suc (Suc 0)" and seq = seq, THEN conjunct2, THEN conjunct2, THEN conjunct2, THEN conjunct2, THEN conjunct2, THEN conjunct2, THEN conjunct2, THEN conjunct2, THEN conjunct1]
      env0(3) r unfolding sB_def by simp
  (* the same from the turn that throws, in one step *)
  have a2: "startSimulation (Suc 0 + Suc 0) env st = Some (Inl e)"
    using C8_write_failure_is_fatal [where env = env and st = st and seq = seq and k = "Suc 0"
        and pk = "Suc 0" and nk = 1 and stp = sP and ?st5.0 = s0 and ?st6.0 = s0 and j = "Suc 0"
        and cj = 1 and stj = s1 and e = e and fuel = 0, THEN conjunct2, THEN conjunct2, THEN conjunct2, THEN conjunct2, THEN conjunct2, THEN conjunct2, THEN conjunct2, THEN conjunct2, THEN conjunct2]
      env0(3) f8 [unfolded sB_def] f9 f6 f7 f4 f5 f3
    unfolding env0 env1 by simp
  (* a pass whose first checkpoint, at step 0, cannot be recorded *)
  define sA where "sA = (newSimulationHelper 0 Map.empty (\<lambda>p. False))
        \<lparr>checkpointPeriod := ''0:4294967295'',
         seqCheckpointPeriod := [\<lparr>sliceStart = 0, sliceEnd = 4294967295, sliceStride = Some 1\<rparr>],
         descRunSteps := 2\<rparr>"
  define sM where "sM = notifyPlugins quiet 0 (emit [ResetAll 0, FillSimulation, MovingWindowCheck 0] sA)"
  have m: "checkpointDue sM 0 \<and> globalRank sM = 0 \<and>
           \<not> fsAppendable sM (masterFileOf (checkpointDirectory sM))"
    by (simp add: sM_def sA_def quiet_def run_defs)
  have g: "dumpOneStep 0 sM = Inl e"
    unfolding e_def
    using C8_write_failure_is_fatal [where st = sM and c = 0, THEN conjunct2, THEN conjunct2, THEN conjunct1] m
    by blast
  have nr: "\<not> restartRequested sA"
    by (simp add: sA_def newSimulationHelper_def)
  have b: "softRestartPass env 1 sA = Inl e"
    using C8_write_failure_is_fatal [where st = sA and e = e and env = env and pass = 1, THEN conjunct2, THEN conjunct2, THEN conjunct2, THEN conjunct2, THEN conjunct2, THEN conjunct1]
      nr g
    unfolding env0 sM_def by blast
  show ?thesis
    using a b unfolding env_def st_def sA_def e_def quiet_def seq_def by simp
qed

section \<open>The number of run steps over a run\<close>

lemma controlView_emit [simp]: "controlView (emit es st) = controlView st"
  by (simp add: controlView_def emit_def agreedStep_def split: option.splits)

lemma dumpTimes_cases:
  "dumpTimes c st = Inr st' \<Longrightarrow> st' = st \<or> st' = emit [ProgressReport c] st"
  by (auto simp: dumpTimes_def split: if_splits)

lemma controlView_dumpTimes: "dumpTimes c st = Inr st' \<Longrightarrow> controlView st' = controlView st"
  using dumpTimes_cases [of c st st'] by auto

lemma controlView_dumpOneStep: "dumpOneStep c st = Inr st' \<Longrightarrow> controlView st' = controlView st"
proof (cases "checkpointDue st c")
  case True
  assume "dumpOneStep c st = Inr st'"
  from dumpOneStep_due [OF True this] show ?thesis
    by (simp add: controlView_def agreedStep_def split: option.splits)
next
  case False
  assume "dumpOneStep c st = Inr st'"
  then show ?thesis using False by (simp add: dumpOneStep_not_due)
qed

lemma checkSignals_handleSignalAtStep:
  "handleSignalAtStep (checkSignals env c st)
     = (if handleSignals st c \<and> received env then c + 1 else handleSignalAtStep st)"
  by (simp add: checkSignals_cases scheduleSignal_fields applySignals_fields)

lemma checkSignals_agreedStep:
  "agreedStep (checkSignals env c st)
     = (if handleSignals st c \<and> received env then allreduceMax (c + 1) (peers env)
        else agreedStep st)"
  by (simp add: checkSignals_cases agreedStep_scheduleSignal agreedStep_applySignals)

lemma checkSignals_descRunSteps:
  "descRunSteps (checkSignals env c st)
     = (if c \<noteq> 0 \<and> handleSignalAtStep st = c \<and> signalStopSimulation st
        then agreedStep st else descRunSteps st)"
  by (auto simp: checkSignals_cases scheduleSignal_fields applySignals_fields handleSignals_def)

lemma checkSignals_signalStopSimulation:
  "signalStopSimulation (checkSignals env c st)
     = (if handleSignals st c \<and> received env then signalStopSimulation st \<or> stopSimulation env
        else if c \<noteq> 0 \<and> handleSignalAtStep st = c then False
        else signalStopSimulation st)"
  by (auto simp: checkSignals_cases scheduleSignal_fields applySignals_fields)

lemma scheduleSignal_config:
  "restartRequested (scheduleSignal env c st) = restartRequested st"
  "softRestarts (scheduleSignal env c st) = softRestarts st"
  by (simp_all add: scheduleSignal_def say_def Let_def)

lemma applySignals_config:
  "restartRequested (applySignals st) = restartRequested st"
  "softRestarts (applySignals st) = softRestarts st"
  by (simp_all add: applySignals_def waitForSignalMPI_def say_def Let_def split: option.splits)

lemma checkSignals_config:
  "restartRequested (checkSignals env c st) = restartRequested st"
  "softRestarts (checkSignals env c st) = softRestarts st"
  by (simp_all add: checkSignals_cases scheduleSignal_config applySignals_config)

lemma controlView_checkSignals:
  "controlView st1 = controlView st2 \<Longrightarrow>
     controlView (checkSignals env c st1) = controlView (checkSignals env c st2)"
  by (simp add: controlView_def checkSignals_handleSignalAtStep checkSignals_agreedStep
      checkSignals_descRunSteps checkSignals_signalStopSimulation checkSignals_config
      handleSignals_def)

text \<open>One turn of the loop, seen through the signal fields.\<close>

lemma controlView_iteration:
  assumes "dumpTimes n (emit [RunOneStep c] st) = Inr st2"
    "dumpOneStep n (notifyPlugins e n (emit [MovingWindowCheck n] st2)) = Inr st3"
  shows "controlView st3 = controlView (checkSignals e n st)"
proof -
  have "controlView st2 = controlView st"
    using controlView_dumpTimes [OF assms(1)] by simp
  then have "controlView (emit [NotifyPlugins n] (emit [MovingWindowCheck n] st2)) = controlView st"
    by simp
  then have "controlView (notifyPlugins e n (emit [MovingWindowCheck n] st2))
               = controlView (checkSignals e n st)"
    unfolding notifyPlugins_def by (rule controlView_checkSignals)
  then show ?thesis using controlView_dumpOneStep [OF assms(2)] by simp
qed










section \<open>The counter of checkpoints over a run\<close>

lemma countsKept_refl: "countsKept st st"
  by (simp add: countsKept_def)

lemma countsKept_trans: "countsKept a b \<Longrightarrow> countsKept b c \<Longrightarrow> countsKept a c"
  by (auto simp: countsKept_def)

lemma countsKept_view: "countView st' = countView st \<Longrightarrow> countsKept st st'"
  by (simp add: countsKept_def countView_def countsAgree_def)

lemma countView_emit:
  "countView (emit es st)
     = (numCheckpoints st, checkpointsTaken st + length (filter isCheckpoint es),
        directoryCreations st + length (filter isCreateDirectory es))"
  by (simp add: countView_def emit_def checkpointsTaken_def directoryCreations_def)

lemma countView_checkSignals: "countView (checkSignals env c st) = countView st"
  by (simp add: countView_def checkpointsTaken_def directoryCreations_def checkSignals_frame)

lemma countView_notifyPlugins: "countView (notifyPlugins env c st) = countView st"
  by (simp add: notifyPlugins_def countView_checkSignals countView_emit)
     (simp add: countView_def)

lemma countView_dumpTimes: "dumpTimes c st = Inr st' \<Longrightarrow> countView st' = countView st"
  using dumpTimes_cases [of c st st'] by (auto simp: countView_emit) (simp add: countView_def)

lemma dumpOneStep_counts:
  assumes "dumpOneStep c st = Inr st'"
  shows "numCheckpoints st'
           = (if checkpointDue st c then numCheckpoints st + 1 else numCheckpoints st) \<and>
         checkpointsTaken st' = checkpointsTaken st + (if checkpointDue st c then 1 else 0) \<and>
         directoryCreations st'
           = directoryCreations st + (if checkpointDue st c \<and> numCheckpoints st = 0 then 1 else 0)"
proof (cases "checkpointDue st c")
  case False
  then have e: "st' = st" using assms by (simp add: dumpOneStep_not_due)
  show ?thesis using False by (simp add: e)
next
  case True
  note e = dumpOneStep_due [OF True assms]
  have "numCheckpoints st' = numCheckpoints st + 1"
    by (simp add: e)
  moreover have "checkpointsTaken st' = checkpointsTaken st + 1"
    by (simp add: e checkpointsTaken_def)
  moreover have "directoryCreations st'
           = directoryCreations st + (if numCheckpoints st = 0 then 1 else 0)"
    by (simp add: e directoryCreations_def)
  ultimately show ?thesis using True by simp
qed

lemma unat_succ_small:
  assumes "unat (w :: uint32_t) + 1 < 2 ^ 32"
  shows "unat (w + 1) = unat w + 1"
  using assms unat_add_lem [of w 1] by simp

lemma countsKept_dumpOneStep:
  assumes "dumpOneStep c st = Inr st'"
  shows "countsKept st st'"
proof (cases "checkpointDue st c")
  case False
  then have "st' = st" using assms by (simp add: dumpOneStep_not_due)
  then show ?thesis by (simp add: countsKept_refl)
next
  case True
  have k: "numCheckpoints st' = numCheckpoints st + 1"
    "checkpointsTaken st' = checkpointsTaken st + 1"
    "directoryCreations st' = directoryCreations st + (if numCheckpoints st = 0 then 1 else 0)"
    using dumpOneStep_counts [OF assms] True by simp_all
  have t: "checkpointsTaken st' = checkpointsTaken st + 1" using k(2) .
  have "countsAgree st'" if a: "countsAgree st"
    unfolding countsAgree_def
  proof
    assume b: "checkpointsTaken st' < 2 ^ 32"
    then have "checkpointsTaken st < 2 ^ 32" using t by simp
    then have u: "unat (numCheckpoints st) = checkpointsTaken st"
      and d: "directoryCreations st = (if checkpointsTaken st = 0 then 0 else 1)"
      using a by (simp_all add: countsAgree_def)
    have "unat (numCheckpoints st) + 1 < 2 ^ 32" using u t b by simp
    then have u': "unat (numCheckpoints st') = checkpointsTaken st'"
      using k(1) u t by (simp add: unat_succ_small)
    have z: "(numCheckpoints st = 0) = (checkpointsTaken st = 0)"
      using u by (metis unat_eq_0)
    have "directoryCreations st' = 1"
      using k(3) d z by simp
    then show "unat (numCheckpoints st') = checkpointsTaken st' \<and>
               directoryCreations st' = (if checkpointsTaken st' = 0 then 0 else 1)"
      using u' t by simp
  qed
  then show ?thesis using t by (simp add: countsKept_def)
qed

lemma countsKept_iteration:
  assumes "dumpTimes n (emit [RunOneStep c] st) = Inr st2"
    "dumpOneStep n (notifyPlugins e n (emit [MovingWindowCheck n] st2)) = Inr st3"
  shows "countsKept st st3"
proof -
  have "countView st2 = countView st"
    using countView_dumpTimes [OF assms(1)] by (simp add: countView_emit) (simp add: countView_def)
  then have "countView (notifyPlugins e n (emit [MovingWindowCheck n] st2)) = countView st"
    by (simp add: countView_notifyPlugins countView_emit) (simp add: countView_def)
  then have "countsKept st (notifyPlugins e n (emit [MovingWindowCheck n] st2))"
    by (rule countsKept_view)
  then show ?thesis using countsKept_dumpOneStep [OF assms(2)] by (rule countsKept_trans)
qed

lemma countsKept_simulationLoop:
  "simulationLoop env c st = Inr (c', st') \<Longrightarrow> countsKept st st'"
proof (induction env c st rule: simulationLoop.induct)
  case (1 env c st)
  show ?case
  proof (cases "c < descRunSteps st")
    case False
    then have "st' = st"
      using "1.prems" by (simp add: simulationLoop.simps [of env c st])
    then show ?thesis by (simp add: countsKept_refl)
  next
    case True
    from "1.prems" True obtain st2 st3 where
      t: "dumpTimes (c + 1) (emit [RunOneStep c] st) = Inr st2" and
      d: "dumpOneStep (c + 1)
            (notifyPlugins (env (c + 1)) (c + 1) (emit [MovingWindowCheck (c + 1)] st2)) = Inr st3" and
      r: "simulationLoop env (c + 1) st3 = Inr (c', st')"
      by (auto simp: simulationLoop.simps [of env c st] split: sum.splits)
    show ?thesis
      using countsKept_iteration [OF t d] "1.IH" [OF True t d r] by (rule countsKept_trans)
  qed
qed

lemma countsKept_softRestartPass:
  assumes r: "softRestartPass env pass st = Inr st'"
  shows "countsKept st st'"
proof -
  define c0 where "c0 = fillSimulation env pass"
  define st1 where "st1 = emit [ResetAll 0, FillSimulation, MovingWindowCheck c0] st"
  have rr: "restartRequested st1 = restartRequested st"
    by (simp add: st1_def emit_def)
  from r obtain st2 st3 c4 st4 where
    i: "(if \<not> restartRequested st
         then dumpOneStep c0 (notifyPlugins (signalsAt env pass c0) c0 st1) else Inr st1) = Inr st2" and
    t: "dumpTimes c0 st2 = Inr st3" and
    l: "simulationLoop (signalsAt env pass) c0 st3 = Inr (c4, st4)" and
    e: "st' = emit [WaitForAllTasks] st4"
    unfolding softRestartPass_def Let_def c0_def [symmetric] st1_def [symmetric] rr
    by (auto split: sum.splits prod.splits)
  have k1: "countsKept st st1"
    by (rule countsKept_view) (simp add: st1_def countView_emit, simp add: countView_def)
  have k2: "countsKept st1 st2"
  proof (cases "restartRequested st")
    case True
    then show ?thesis using i by (simp add: countsKept_refl)
  next
    case False
    then have d: "dumpOneStep c0 (notifyPlugins (signalsAt env pass c0) c0 st1) = Inr st2"
      using i by simp
    have "countsKept st1 (notifyPlugins (signalsAt env pass c0) c0 st1)"
      by (rule countsKept_view) (rule countView_notifyPlugins)
    then show ?thesis using countsKept_dumpOneStep [OF d] by (rule countsKept_trans)
  qed
  have k3: "countsKept st2 st3"
    by (rule countsKept_view) (rule countView_dumpTimes [OF t])
  have k4: "countsKept st3 st4" by (rule countsKept_simulationLoop [OF l])
  have k5: "countsKept st4 st'"
    by (rule countsKept_view) (simp add: e countView_emit, simp add: countView_def)
  show ?thesis
    using k1 k2 k3 k4 k5 by (meson countsKept_trans)
qed

lemma countsKept_softRestartLoop:
  "softRestartLoop fuel env pass n st = Some (Inr st') \<Longrightarrow> countsKept st st'"
proof (induction fuel arbitrary: pass n st)
  case 0
  then show ?case by simp
next
  case (Suc fuel)
  show ?case
  proof (cases "n \<le> softRestarts st")
    case False
    then show ?thesis using Suc.prems by (simp add: countsKept_refl)
  next
    case True
    from Suc.prems True obtain st1 where
      p: "softRestartPass env pass st = Inr st1" and
      r: "softRestartLoop fuel env (Suc pass) (n + 1) st1 = Some (Inr st')"
      by (auto split: sum.splits)
    show ?thesis
      using countsKept_softRestartPass [OF p] Suc.IH [OF r] by (rule countsKept_trans)
  qed
qed

lemma countsKept_startSimulation:
  assumes "startSimulation fuel env st = Some (Inr st')"
  shows "countsKept st st'"
proof -
  define st2 where
    "st2 = emit [SignalActivate, Init] (if useMpiDirect st then emit [EnableMpiDirect] st else st)"
  from assms obtain seq where
    r: "softRestartLoop fuel env 0 0 (st2\<lparr>seqCheckpointPeriod := seq\<rparr>) = Some (Inr st')"
    unfolding startSimulation_def Let_def st2_def [symmetric]
    by (auto split: option.splits)
  have "countView (st2\<lparr>seqCheckpointPeriod := seq\<rparr>) = countView st"
    by (simp add: st2_def countView_def emit_def checkpointsTaken_def directoryCreations_def)
  then have "countsKept st (st2\<lparr>seqCheckpointPeriod := seq\<rparr>)" by (rule countsKept_view)
  then show ?thesis using countsKept_softRestartLoop [OF r] by (rule countsKept_trans)
qed

text \<open>
  C6, as amended. Every call of \<^verbatim>\<open>dumpOneStep\<close> that returns adds one to
  \<^verbatim>\<open>numCheckpoints\<close> exactly when a checkpoint was due, and creates the checkpoint
  directory exactly when in addition \<^verbatim>\<open>numCheckpoints\<close> was 0; the counter does not
  decrease unless it was at its largest value. Over an entire run of \<^verbatim>\<open>startSimulation\<close>,
  all soft restarts included, that takes fewer than \<open>2^32\<close> checkpoints, the counter
  is the number of checkpoints taken, and the directory has been created exactly once if a
  checkpoint was taken and never otherwise.
\<close>

theorem C6_counts_without_wrap:
  "(dumpOneStep c st = Inr st' \<longrightarrow>
      numCheckpoints st'
        = (if checkpointDue st c then numCheckpoints st + 1 else numCheckpoints st) \<and>
      checkpointsTaken st' = checkpointsTaken st + (if checkpointDue st c then 1 else 0) \<and>
      directoryCreations st'
        = directoryCreations st + (if checkpointDue st c \<and> numCheckpoints st = 0 then 1 else 0) \<and>
      (numCheckpoints st < 4294967295 \<longrightarrow> numCheckpoints st \<le> numCheckpoints st')) \<and>
   (startSimulation fuel env st = Some (Inr st'') \<and> countsAgree st \<and>
    checkpointsTaken st'' < 2 ^ 32 \<longrightarrow>
      checkpointsTaken st \<le> checkpointsTaken st'' \<and>
      unat (numCheckpoints st'') = checkpointsTaken st'' \<and>
      directoryCreations st'' = (if checkpointsTaken st'' = 0 then 0 else 1))"
proof -
  have a: "dumpOneStep c st = Inr st' \<longrightarrow>
      numCheckpoints st'
        = (if checkpointDue st c then numCheckpoints st + 1 else numCheckpoints st) \<and>
      checkpointsTaken st' = checkpointsTaken st + (if checkpointDue st c then 1 else 0) \<and>
      directoryCreations st'
        = directoryCreations st + (if checkpointDue st c \<and> numCheckpoints st = 0 then 1 else 0)"
    using dumpOneStep_counts [of c st st'] by blast
  have m: "numCheckpoints st \<le> numCheckpoints st + 1" if "numCheckpoints st < 4294967295"
  proof -
    have "unat (numCheckpoints st) < 4294967295"
      using that by (simp add: word_less_nat_alt)
    then have "unat (numCheckpoints st + 1) = unat (numCheckpoints st) + 1"
      by (simp add: unat_succ_small)
    then show ?thesis by (simp add: word_le_nat_alt)
  qed
  have b: "dumpOneStep c st = Inr st' \<longrightarrow> numCheckpoints st < 4294967295 \<longrightarrow>
             numCheckpoints st \<le> numCheckpoints st'"
    using a m by auto
  have r: "startSimulation fuel env st = Some (Inr st'') \<and> countsAgree st \<and>
    checkpointsTaken st'' < 2 ^ 32 \<longrightarrow>
      checkpointsTaken st \<le> checkpointsTaken st'' \<and>
      unat (numCheckpoints st'') = checkpointsTaken st'' \<and>
      directoryCreations st'' = (if checkpointsTaken st'' = 0 then 0 else 1)"
    using countsKept_startSimulation [of fuel env st st'']
    by (simp add: countsKept_def) (simp add: countsAgree_def)
  show ?thesis using a b r by blast
qed

theorem C6_counts_without_wrap_witness:
  "countsAgree ((newSimulationHelper 0 Map.empty (\<lambda>p. True))
                  \<lparr>checkpointPeriod := ''0:4294967295:2'', descRunSteps := 3, softRestarts := 1\<rparr>) \<and>
   (case startSimulation (Suc (Suc (Suc 0)))
           \<lparr>toTimeSlice = (\<lambda>s. Some [\<lparr>sliceStart = 0, sliceEnd = 4294967295, sliceStride = Some 2\<rparr>]),
            fillSimulation = (\<lambda>i. 0),
            signalsAt = (\<lambda>i k. \<lparr>received = False, createCheckpoint = False,
                                  stopSimulation = False, peers = []\<rparr>)\<rparr>
           ((newSimulationHelper 0 Map.empty (\<lambda>p. True))
              \<lparr>checkpointPeriod := ''0:4294967295:2'', descRunSteps := 3, softRestarts := 1\<rparr>) of
      None \<Rightarrow> False
    | Some (Inl e) \<Rightarrow> False
    | Some (Inr st') \<Rightarrow>
        checkpointsTaken st' = 4 \<and> unat (numCheckpoints st') = 4 \<and> directoryCreations st' = 1) \<and>
   (case dumpOneStep 0
           ((newSimulationHelper 0 Map.empty (\<lambda>p. True))
              \<lparr>checkpointPeriod := ''0:4294967295:2'',
               seqCheckpointPeriod := [\<lparr>sliceStart = 0, sliceEnd = 4294967295, sliceStride = Some 2\<rparr>]\<rparr>) of
      Inl e \<Rightarrow> False
    | Inr st' \<Rightarrow>
        numCheckpoints st' = 1 \<and> checkpointsTaken st' = 1 \<and> directoryCreations st' = 1)"
proof -
  define renv where "renv =
           \<lparr>toTimeSlice = (\<lambda>s :: string. (Some [\<lparr>sliceStart = 0, sliceEnd = 4294967295, sliceStride = Some 2\<rparr>]
                                              :: TimeSlice list option)),
            fillSimulation = (\<lambda>i :: nat. 0 :: uint32_t),
            signalsAt = (\<lambda>(i :: nat) (k :: uint32_t). \<lparr>received = False, createCheckpoint = False,
                                  stopSimulation = False, peers = []\<rparr>)\<rparr>"
  define st where "st = (newSimulationHelper 0 Map.empty (\<lambda>p. True))
              \<lparr>checkpointPeriod := ''0:4294967295:2'', descRunSteps := 3, softRestarts := 1\<rparr>"
  define sd where "sd = (newSimulationHelper 0 Map.empty (\<lambda>p. True))
              \<lparr>checkpointPeriod := ''0:4294967295:2'',
               seqCheckpointPeriod := [\<lparr>sliceStart = 0, sliceEnd = 4294967295, sliceStride = Some 2\<rparr>]\<rparr>"
  have w: "\<not> (2 :: uint32_t) \<le> 1"
    by (simp add: word_le_nat_alt)
  (* the whole run: two passes of three steps, checkpoints at steps 0 and 2 *)
  have "\<exists>st'. startSimulation (Suc (Suc (Suc 0))) renv st = Some (Inr st') \<and> checkpointsTaken st' = 4"
    unfolding renv_def st_def
    by (simp add: simulationLoop.simps run_defs checkpointsTaken_def w)
  then obtain st' where r: "startSimulation (Suc (Suc (Suc 0))) renv st = Some (Inr st')"
    and t: "checkpointsTaken st' = 4"
    by blast
  have i: "countsAgree st"
    by (simp add: st_def countsAgree_def checkpointsTaken_def directoryCreations_def
        newSimulationHelper_def)
  have "unat (numCheckpoints st') = checkpointsTaken st' \<and>
        directoryCreations st' = (if checkpointsTaken st' = 0 then 0 else 1)"
    using C6_counts_without_wrap [of _ st _ "Suc (Suc (Suc 0))" renv st'] r i t by simp
  then have a: "unat (numCheckpoints st') = 4 \<and> directoryCreations st' = 1"
    using t by simp
  (* the first checkpoint *)
  have due: "checkpointDue sd 0"
    by (simp add: sd_def checkpointDue_def inTimeSlice_def newSimulationHelper_def)
  have f: "numCheckpoints sd = 0" "checkpointsTaken sd = 0" "directoryCreations sd = 0"
    "globalRank sd = 0" "fsAppendable sd (masterFileOf (checkpointDirectory sd))"
    by (simp_all add: sd_def checkpointsTaken_def directoryCreations_def newSimulationHelper_def)
  obtain sd' where d: "dumpOneStep 0 sd = Inr sd'"
    using dumpOneStep_error [of 0 sd] f by (cases "dumpOneStep 0 sd") auto
  have b: "numCheckpoints sd' = 1 \<and> checkpointsTaken sd' = 1 \<and> directoryCreations sd' = 1"
    using C6_counts_without_wrap [of 0 sd sd'] d due f by simp
  show ?thesis
    using r t a i d b unfolding renv_def st_def sd_def by simp
qed

text \<open>
  C6 as stated fails where the 32 bit counter wraps: from \<^verbatim>\<open>numCheckpoints\<close> at its
  largest value a checkpoint at step 3 leaves it at 0, below its value before, and the
  checkpoint at step 6 creates the directory again.
\<close>

theorem C6_counter_wraps_counterexample:
  "(case dumpOneStep 3
           ((newSimulationHelper 0 Map.empty (\<lambda>p. True))
              \<lparr>checkpointPeriod := ''3'',
               seqCheckpointPeriod := [\<lparr>sliceStart = 0, sliceEnd = 4294967295, sliceStride = Some 3\<rparr>],
               numCheckpoints := 4294967295\<rparr>) of
      Inl e \<Rightarrow> False
    | Inr st1 \<Rightarrow>
        (case dumpOneStep 6 st1 of
           Inl e \<Rightarrow> False
         | Inr st2 \<Rightarrow>
             \<not> numCheckpoints
                  ((newSimulationHelper 0 Map.empty (\<lambda>p. True))
                     \<lparr>checkpointPeriod := ''3'',
                      seqCheckpointPeriod :=
                        [\<lparr>sliceStart = 0, sliceEnd = 4294967295, sliceStride = Some 3\<rparr>],
                      numCheckpoints := 4294967295\<rparr>)
                 \<le> numCheckpoints st1 \<and>
             numCheckpoints st1 = 0 \<and>
             trace st2
               = [DeviceSynchronize, WaitForFinished, Barrier,
                  CheckpointPlugins 3 ''checkpoints'', DeviceSynchronize, WaitForFinished, Barrier,
                  DeviceSynchronize, WaitForFinished, Barrier,
                  CreateDirectoryWithPermissions ''checkpoints'',
                  CheckpointPlugins 6 ''checkpoints'', DeviceSynchronize, WaitForFinished, Barrier]))"
  by (simp add: run_defs)

section \<open>A checkpoint requested by a signal\<close>

lemma containsStep_append:
  "containsStep (seq @ seq2) n = (containsStep seq n \<or> containsStep seq2 n)"
  by (induction seq) auto

lemma inTimeSlice_one_step: "inTimeSlice (mkTimeSlice s s) n = (n = s)"
  by (auto simp: inTimeSlice_def mkTimeSlice_def)

lemma containsStep_one_step: "containsStep [mkTimeSlice s s] n = (n = s)"
  by (simp add: inTimeSlice_one_step)

lemma checkSignals_seqCheckpointPeriod:
  "seqCheckpointPeriod (checkSignals env c st)
     = (if c \<noteq> 0 \<and> handleSignalAtStep st = c \<and> signalCreateCheckpoint st
        then seqCheckpointPeriod st @ [mkTimeSlice (agreedStep st) (agreedStep st)]
        else seqCheckpointPeriod st)"
  by (auto simp: checkSignals_cases scheduleSignal_fields applySignals_fields handleSignals_def)

text \<open>
  What holds of the claim C1: the appended one-step interval contains its step and keeps
  every step that was contained; the checkpoint is due at the agreed step when a
  checkpoint period was configured.
\<close>

lemma checkpoint_due_after_signal:
  assumes "c \<noteq> 0" "handleSignalAtStep st = c" "signalCreateCheckpoint st"
  shows "containsStep (seqCheckpointPeriod (checkSignals env c st)) (agreedStep st)"
    and "containsStep (seqCheckpointPeriod st) n \<Longrightarrow>
           containsStep (seqCheckpointPeriod (checkSignals env c st)) n"
    and "checkpointDue st n \<Longrightarrow> checkpointDue (checkSignals env c st) n"
    and "checkpointPeriod st \<noteq> [] \<Longrightarrow> checkpointDue (checkSignals env c st) (agreedStep st)"
  using assms
  by (simp_all add: checkSignals_seqCheckpointPeriod containsStep_append inTimeSlice_one_step
      checkpointDue_def checkSignals_frame)

text \<open>Without a configured period \<^verbatim>\<open>dumpOneStep\<close> does nothing, whatever the intervals.\<close>

lemma dumpOneStep_without_period: "checkpointPeriod st = [] \<Longrightarrow> dumpOneStep c st = Inr st"
  by (simp add: dumpOneStep_not_due checkpointDue_def)

text \<open>
  C1 fails on the code where no checkpoint period is configured. A run of 5 steps on one
  process, with the default empty \<^verbatim>\<open>checkpointPeriod\<close>, receives a checkpoint signal at
  step 2. At step 3 \<^verbatim>\<open>checkSignals\<close> appends the interval {3,3} and prints that it
  activates checkpointing for step 3; the interval contains step 3, but \<^verbatim>\<open>dumpOneStep\<close>
  tests \<^verbatim>\<open>!checkpointPeriod.empty()\<close> first, so no checkpoint is due at step 3 and none is
  written in the run.
\<close>

theorem C1_signal_checkpoint_lost_without_period:
  "(case simulationLoop
           (\<lambda>k. if k = 2
                then \<lparr>received = True, createCheckpoint = True, stopSimulation = False, peers = []\<rparr>
                else \<lparr>received = False, createCheckpoint = False, stopSimulation = False, peers = []\<rparr>)
           0 (pluginLoad (\<lambda>r p. 0) ((newSimulationHelper 0 Map.empty (\<lambda>p. True))\<lparr>runSteps := 5\<rparr>)) of
      Inl e \<Rightarrow> False
    | Inr (lastStep, st') \<Rightarrow>
        lastStep = 5 \<and>
        checkpointPeriod st' = [] \<and>
        seqCheckpointPeriod st' = [mkTimeSlice 3 3] \<and>
        containsStep (seqCheckpointPeriod st') 3 \<and>
        \<not> checkpointDue st' 3 \<and>
        checkpointsTaken st' = 0 \<and>
        numCheckpoints st' = 0 \<and>
        fsFiles st' = Map.empty \<and>
        cout st' = [''SIGNAL: received.'',
                    ''SIGNAL: Received at step 2. Schedule checkpointing. '',
                    ''SIGNAL: Activate checkpointing for step 3''])"
  by (simp add: simulationLoop.simps run_defs pluginLoad_def calcProgress_def
      checkpointsTaken_def decimal.simps digit_char_def)

section \<open>The loop over the soft restarts ends\<close>

lemma softRestarts_simulationLoop:
  "simulationLoop env c st = Inr (c', st') \<Longrightarrow> softRestarts st' = softRestarts st"
proof (induction env c st rule: simulationLoop.induct)
  case (1 env c st)
  show ?case
  proof (cases "c < descRunSteps st")
    case False
    then show ?thesis
      using "1.prems" by (simp add: simulationLoop.simps [of env c st])
  next
    case True
    from "1.prems" True obtain st2 st3 where
      t: "dumpTimes (c + 1) (emit [RunOneStep c] st) = Inr st2" and
      d: "dumpOneStep (c + 1)
            (notifyPlugins (env (c + 1)) (c + 1) (emit [MovingWindowCheck (c + 1)] st2)) = Inr st3" and
      r: "simulationLoop env (c + 1) st3 = Inr (c', st')"
      by (auto simp: simulationLoop.simps [of env c st] split: sum.splits)
    have "softRestarts st3 = softRestarts st"
      using controlView_iteration [OF t d]
      by (simp add: controlView_def checkSignals_config)
    then show ?thesis using "1.IH" [OF True t d r] by simp
  qed
qed

lemma softRestarts_softRestartPass:
  assumes r: "softRestartPass env pass st = Inr st'"
  shows "softRestarts st' = softRestarts st"
proof -
  define c0 where "c0 = fillSimulation env pass"
  define st1 where "st1 = emit [ResetAll 0, FillSimulation, MovingWindowCheck c0] st"
  have rr: "restartRequested st1 = restartRequested st"
    by (simp add: st1_def emit_def)
  from r obtain st2 st3 c4 st4 where
    i: "(if \<not> restartRequested st
         then dumpOneStep c0 (notifyPlugins (signalsAt env pass c0) c0 st1) else Inr st1) = Inr st2" and
    t: "dumpTimes c0 st2 = Inr st3" and
    l: "simulationLoop (signalsAt env pass) c0 st3 = Inr (c4, st4)" and
    e: "st' = emit [WaitForAllTasks] st4"
    unfolding softRestartPass_def Let_def c0_def [symmetric] st1_def [symmetric] rr
    by (auto split: sum.splits prod.splits)
  have v1: "controlView st1 = controlView st" by (simp add: st1_def)
  have "controlView (notifyPlugins (signalsAt env pass c0) c0 st1)
          = controlView (checkSignals (signalsAt env pass c0) c0 st)"
    unfolding notifyPlugins_def using v1 by (intro controlView_checkSignals) simp
  then have "softRestarts (notifyPlugins (signalsAt env pass c0) c0 st1) = softRestarts st"
    by (simp add: controlView_def checkSignals_config)
  then have "softRestarts st2 = softRestarts st"
    using i v1 controlView_dumpOneStep [of c0 _ st2]
    by (auto simp: controlView_def split: if_splits)
  then have "softRestarts st3 = softRestarts st"
    using controlView_dumpTimes [OF t] by (simp add: controlView_def)
  then have "softRestarts st4 = softRestarts st"
    using softRestarts_simulationLoop [OF l] by simp
  then show ?thesis using e by (simp add: emit_def)
qed

text \<open>
  With fewer soft restarts than the counter can hold, the loop over the soft restarts
  ends: enough fuel gives a result. With \<^verbatim>\<open>softRestarts\<close> at the largest value the loop
  ends only in an error.
\<close>

lemma softRestartLoop_ends:
  "softRestarts st < 4294967295 \<Longrightarrow> unat n \<le> unat (softRestarts st) + 1 \<Longrightarrow>
   unat (softRestarts st) + 2 - unat n \<le> fuel \<Longrightarrow>
   softRestartLoop fuel env pass n st \<noteq> None"
proof (induction fuel arbitrary: pass n st)
  case 0
  then show ?case by simp
next
  case (Suc fuel)
  show ?case
  proof (cases "n \<le> softRestarts st")
    case False
    then show ?thesis by simp
  next
    case True
    show ?thesis
    proof (cases "softRestartPass env pass st")
      case (Inl e)
      then show ?thesis using True by simp
    next
      case (Inr st1)
      have s: "softRestarts st1 = softRestarts st"
        using softRestarts_softRestartPass [OF Inr] .
      have le: "unat n \<le> unat (softRestarts st)"
        using True by (simp add: word_le_nat_alt)
      have "unat (softRestarts st) < 4294967295"
        using Suc.prems(1) by (simp add: word_less_nat_alt)
      then have "unat n + 1 < 2 ^ 32" using le by simp
      then have u: "unat (n + 1) = unat n + 1" by (rule unat_succ_small)
      have "softRestartLoop fuel env (Suc pass) (n + 1) st1 \<noteq> None"
        using Suc.IH [of st1 "n + 1" "Suc pass"] Suc.prems s u le by simp
      then show ?thesis using True Inr by simp
    qed
  qed
qed

lemma startSimulation_ends:
  assumes "softRestarts st < 4294967295"
  shows "startSimulation (unat (softRestarts st) + 2) env st \<noteq> None"
proof (cases "toTimeSlice env (checkpointPeriod st)")
  case None
  then show ?thesis by (simp add: startSimulation_def Let_def emit_def)
next
  case (Some seq)
  define st2 where
    "st2 = (emit [SignalActivate, Init] (if useMpiDirect st then emit [EnableMpiDirect] st else st))
             \<lparr>seqCheckpointPeriod := seq\<rparr>"
  have s: "softRestarts st2 = softRestarts st"
    by (simp add: st2_def emit_def)
  have e: "startSimulation (unat (softRestarts st) + 2) env st
             = softRestartLoop (unat (softRestarts st) + 2) env 0 0 st2"
    unfolding startSimulation_def Let_def st2_def using Some by (simp add: emit_def)
  have "softRestartLoop (unat (softRestarts st) + 2) env 0 0 st2 \<noteq> None"
    using softRestartLoop_ends [of st2 0 "unat (softRestarts st) + 2" env 0] assms s by simp
  then show ?thesis
    unfolding e .
qed

lemma softRestartLoop_forever:
  "softRestarts st = 4294967295 \<Longrightarrow> softRestartLoop fuel env pass n st = Some r \<Longrightarrow>
   \<exists>e. r = Inl e"
proof (induction fuel arbitrary: pass n st)
  case 0
  then show ?case by simp
next
  case (Suc fuel)
  have le: "n \<le> softRestarts st"
    using Suc.prems(1) by (simp add: word_le_nat_alt) (use unsigned_less [of n, where 'a = nat] in simp)
  show ?case
  proof (cases "softRestartPass env pass st")
    case (Inl e)
    have "r = Inl e" using Suc.prems(2) le by (simp add: Inl)
    then show ?thesis by blast
  next
    case (Inr st1)
    have "softRestarts st1 = 4294967295"
      using softRestarts_softRestartPass [OF Inr] Suc.prems(1) by simp
    then show ?thesis
      using Suc.IH [of st1 "Suc pass" "n + 1"] le Inr Suc.prems(2) by simp
  qed
qed

section \<open>Reading after writing\<close>

lemma digit_char_digit:
  assumes "d < 10"
  shows "is_digit (digit_char d) \<and> digit_value (digit_char d) = d"
proof -
  have "d \<in> {0, 1, 2, 3, 4, 5, 6, 7, 8, 9}" using assms by auto
  then show ?thesis
    by (auto simp: digit_char_def is_digit_def digit_value_def)
qed

lemma digits_value_snoc:
  "digits_value (xs @ [c]) acc
     = (case digits_value xs acc of
          None \<Rightarrow> None
        | Some v \<Rightarrow> if is_digit c then Some (v * 10 + digit_value c) else None)"
  by (induction xs arbitrary: acc) auto

lemma digits_value_decimal: "digits_value (decimal n) 0 = Some n"
proof (induction n rule: decimal.induct)
  case (1 n)
  show ?case
  proof (cases "n < 10")
    case True
    then show ?thesis
      using digit_char_digit [of n] by (simp add: decimal.simps [of n])
  next
    case False
    have "n mod 10 < 10" by simp
    then show ?thesis
      using False "1.IH" digit_char_digit [of "n mod 10"]
      by (simp add: decimal.simps [of n] digits_value_snoc)
  qed
qed

lemma decimal_digits: "c \<in> set (decimal n) \<Longrightarrow> is_digit c"
  using digits_value_decimal digits_value_digits by blast

lemma decimal_nonempty: "decimal n \<noteq> []"
  by (subst decimal.simps) simp

lemma lexical_cast_decimal: "lexical_cast_uint32 (decimal (unat w)) = Some w"
proof -
  obtain c cs where s: "decimal (unat w) = c # cs"
    using decimal_nonempty [of "unat w"] by (cases "decimal (unat w)") auto
  have "is_digit c" using decimal_digits [of c "unat w"] s by simp
  then have ns: "c \<noteq> CHR ''-''" "c \<noteq> CHR ''+''"
    by (auto simp: is_digit_def)
  have b: "unat w \<le> 4294967295"
    using unsigned_less [of w, where 'a = nat] by simp
  have "digits_value (c # cs) 0 = Some (unat w)"
    using digits_value_decimal [of "unat w"] s by simp
  then show ?thesis
    unfolding lexical_cast_uint32_def s using ns b by (simp add: Let_def)
qed

lemma decimal_no_newline: "newline \<notin> set (decimal n)"
  using decimal_digits [of newline n] by (auto simp: is_digit_def newline_def)

lemma getlines_terminated:
  "getlines (a @ newline # b) acc = getlines (a @ [newline]) acc @ getlines b []"
  by (induction a arbitrary: acc) auto

lemma readLines_append: "readLines (xs @ ys) = (fst (readLines xs) @ fst (readLines ys),
                                                snd (readLines xs) @ snd (readLines ys))"
  by (simp add: readLines_eq map_filter_def)

text \<open>
  Reading after writing: when the checkpoint directory is the restart directory and the
  master file is missing or ends a line, the steps read after \<^verbatim>\<open>writeCheckpointStep\<close> are
  the steps read before, followed by the step written.
\<close>

lemma read_after_write:
  assumes w: "writeCheckpointStep s st = Inr st'"
    and d: "restartDirectory st = checkpointDirectory st"
    and t: "masterFileContent st = [] \<or> (\<exists>a. masterFileContent st = a @ [newline])"
  shows "readCheckpointMasterFile st'
           = (fst (readCheckpointMasterFile st) @ [s], snd (readCheckpointMasterFile st))"
proof -
  define old where "old = masterFileContent st"
  have st': "st' = st\<lparr>fsFiles := (fsFiles st)(masterFileOf (checkpointDirectory st) \<mapsto>
                  old @ decimal (unat s) @ [newline])\<rparr>"
    using w by (simp add: writeCheckpointStep_result old_def split: if_splits)
  have r0: "readCheckpointMasterFile st = readLines (getlines old [])"
    by (simp add: readCheckpointMasterFile_def d old_def masterFileContent_def split: option.splits)
  have r1: "readCheckpointMasterFile st' = readLines (getlines (old @ decimal (unat s) @ [newline]) [])"
    by (simp add: readCheckpointMasterFile_def d st')
  have l: "getlines (decimal (unat s) @ [newline]) [] = [decimal (unat s)]"
    using getlines_line [of "decimal (unat s)" "[]" "[]"] decimal_no_newline by simp
  have g: "getlines (old @ decimal (unat s) @ [newline]) [] = getlines old [] @ [decimal (unat s)]"
  proof (cases "old = []")
    case True
    then show ?thesis using l by simp
  next
    case False
    then obtain a where a: "old = a @ [newline]" using t old_def by auto
    have "getlines (a @ newline # (decimal (unat s) @ [newline])) []
            = getlines (a @ [newline]) [] @ getlines (decimal (unat s) @ [newline]) []"
      by (rule getlines_terminated)
    then show ?thesis using a l by simp
  qed
  have "readLines [decimal (unat s)] = ([s], [])"
    using lexical_cast_decimal [of s] decimal_nonempty [of "unat s"] by simp
  then show ?thesis
    unfolding r0 r1 g by (simp add: readLines_append)
qed

section \<open>The progress stride over a run\<close>

lemma stride_emit: "showProgressAnyStep (emit es st) = showProgressAnyStep st"
  by (simp add: emit_def)

lemma stride_dumpTimes:
  "dumpTimes c st = Inr st' \<Longrightarrow> showProgressAnyStep st' = showProgressAnyStep st"
  using dumpTimes_cases [of c st st'] by (auto simp: stride_emit)

lemma stride_dumpOneStep:
  assumes "dumpOneStep c st = Inr st'"
  shows "showProgressAnyStep st' = showProgressAnyStep st"
proof (cases "checkpointDue st c")
  case True
  show ?thesis by (simp add: dumpOneStep_due [OF True assms])
next
  case False
  then show ?thesis using assms by (simp add: dumpOneStep_not_due)
qed

lemma stride_notifyPlugins:
  "showProgressAnyStep (notifyPlugins e c st) = showProgressAnyStep st"
  by (simp add: notifyPlugins_def checkSignals_frame stride_emit)

lemma dumpTimes_defined:
  "showProgressAnyStep st \<noteq> 0 \<Longrightarrow> dumpTimes c st \<noteq> Inl DivisionByZero"
  by (simp add: dumpTimes_def)

lemma dumpOneStep_defined: "dumpOneStep c st \<noteq> Inl DivisionByZero"
  by (simp add: dumpOneStep_error)

lemma simulationLoop_defined:
  "showProgressAnyStep st \<noteq> 0 \<Longrightarrow>
   (case simulationLoop env c st of
      Inl e \<Rightarrow> e \<noteq> DivisionByZero
    | Inr (c', st') \<Rightarrow> showProgressAnyStep st' = showProgressAnyStep st)"
proof (induction env c st rule: simulationLoop.induct)
  case (1 env c st)
  show ?case
  proof (cases "c < descRunSteps st")
    case False
    then show ?thesis by (simp add: simulationLoop.simps [of env c st])
  next
    case True
    show ?thesis
    proof (cases "dumpTimes (c + 1) (emit [RunOneStep c] st)")
      case (Inl e)
      have "e \<noteq> DivisionByZero"
        using dumpTimes_defined [of "emit [RunOneStep c] st" "c + 1"] "1.prems" Inl
        by (auto simp: stride_emit)
      then show ?thesis using True Inl by (simp add: simulationLoop.simps [of env c st])
    next
      case t: (Inr st2)
      have s2: "showProgressAnyStep st2 = showProgressAnyStep st"
        using stride_dumpTimes [OF t] by (simp add: stride_emit)
      show ?thesis
      proof (cases "dumpOneStep (c + 1)
            (notifyPlugins (env (c + 1)) (c + 1) (emit [MovingWindowCheck (c + 1)] st2))")
        case (Inl e)
        have "e \<noteq> DivisionByZero"
          using dumpOneStep_defined Inl by metis
        then show ?thesis using True t Inl by (simp add: simulationLoop.simps [of env c st])
      next
        case d: (Inr st3)
        have s3: "showProgressAnyStep st3 = showProgressAnyStep st"
          using stride_dumpOneStep [OF d] s2 by (simp add: stride_notifyPlugins stride_emit)
        have "case simulationLoop env (c + 1) st3 of
                Inl e \<Rightarrow> e \<noteq> DivisionByZero
              | Inr (c', st') \<Rightarrow> showProgressAnyStep st' = showProgressAnyStep st3"
          using "1.IH" [OF True t d] s3 "1.prems" by simp
        then show ?thesis
          using True t d s3
          by (auto simp: simulationLoop.simps [of env c st] split: sum.splits prod.splits)
      qed
    qed
  qed
qed

lemma softRestartPass_defined:
  assumes nz: "showProgressAnyStep st \<noteq> 0"
  shows "(case softRestartPass env pass st of
            Inl e \<Rightarrow> e \<noteq> DivisionByZero
          | Inr st' \<Rightarrow> showProgressAnyStep st' = showProgressAnyStep st)"
proof -
  define c0 where "c0 = fillSimulation env pass"
  define st1 where "st1 = emit [ResetAll 0, FillSimulation, MovingWindowCheck c0] st"
  define first where "first = (if \<not> restartRequested st1
      then dumpOneStep c0 (notifyPlugins (signalsAt env pass c0) c0 st1) else Inr st1)"
  have p: "softRestartPass env pass st =
     (case first of
        Inl e \<Rightarrow> Inl e
      | Inr st2 \<Rightarrow>
          (case dumpTimes c0 st2 of
             Inl e \<Rightarrow> Inl e
           | Inr st3 \<Rightarrow>
               (case simulationLoop (signalsAt env pass) c0 st3 of
                  Inl e \<Rightarrow> Inl e
                | Inr (lastStep, st4) \<Rightarrow> Inr (emit [WaitForAllTasks] st4))))"
    unfolding softRestartPass_def Let_def c0_def st1_def first_def by simp
  have s1: "showProgressAnyStep st1 = showProgressAnyStep st"
    by (simp add: st1_def stride_emit)
  show ?thesis
  proof (cases first)
    case (Inl e)
    then have "e \<noteq> DivisionByZero"
      using dumpOneStep_defined unfolding first_def by (metis Inl_Inr_False)
    then show ?thesis using Inl by (simp add: p)
  next
    case f: (Inr st2)
    have s2: "showProgressAnyStep st2 = showProgressAnyStep st"
    proof (cases "restartRequested st1")
      case True
      then show ?thesis using f s1 by (simp add: first_def)
    next
      case False
      then have "dumpOneStep c0 (notifyPlugins (signalsAt env pass c0) c0 st1) = Inr st2"
        using f by (simp add: first_def)
      then show ?thesis
        using stride_dumpOneStep s1 by (simp add: stride_notifyPlugins)
    qed
    show ?thesis
    proof (cases "dumpTimes c0 st2")
      case (Inl e)
      then have "e \<noteq> DivisionByZero"
        using dumpTimes_defined [of st2 c0] s2 nz by auto
      then show ?thesis using f Inl by (simp add: p)
    next
      case t: (Inr st3)
      have s3: "showProgressAnyStep st3 = showProgressAnyStep st"
        using stride_dumpTimes [OF t] s2 by simp
      then have "case simulationLoop (signalsAt env pass) c0 st3 of
                Inl e \<Rightarrow> e \<noteq> DivisionByZero
              | Inr (c', st') \<Rightarrow> showProgressAnyStep st' = showProgressAnyStep st3"
        using simulationLoop_defined [of st3 "signalsAt env pass" c0] nz by simp
      then show ?thesis
        using f t s3 by (auto simp: p stride_emit split: sum.splits prod.splits)
    qed
  qed
qed

lemma softRestartLoop_defined:
  "showProgressAnyStep st \<noteq> 0 \<Longrightarrow>
   softRestartLoop fuel env pass n st \<noteq> Some (Inl DivisionByZero)"
proof (induction fuel arbitrary: pass n st)
  case 0
  then show ?case by simp
next
  case (Suc fuel)
  show ?case
  proof (cases "n \<le> softRestarts st")
    case False
    then show ?thesis by simp
  next
    case True
    show ?thesis
    proof (cases "softRestartPass env pass st")
      case (Inl e)
      then have "e \<noteq> DivisionByZero"
        using softRestartPass_defined [OF Suc.prems, of env pass] by simp
      then show ?thesis using True Inl by simp
    next
      case (Inr st1)
      then have "showProgressAnyStep st1 \<noteq> 0"
        using softRestartPass_defined [OF Suc.prems, of env pass] Suc.prems by simp
      then show ?thesis using Suc.IH True Inr by simp
    qed
  qed
qed

lemma startSimulation_defined:
  assumes "showProgressAnyStep st \<noteq> 0"
  shows "startSimulation fuel env st \<noteq> Some (Inl DivisionByZero)"
proof (cases "toTimeSlice env (checkpointPeriod st)")
  case None
  then show ?thesis by (simp add: startSimulation_def Let_def emit_def)
next
  case (Some seq)
  define st2 where
    "st2 = (emit [SignalActivate, Init] (if useMpiDirect st then emit [EnableMpiDirect] st else st))
             \<lparr>seqCheckpointPeriod := seq\<rparr>"
  have e: "startSimulation fuel env st = softRestartLoop fuel env 0 0 st2"
    unfolding startSimulation_def Let_def st2_def using Some by (simp add: emit_def)
  have "showProgressAnyStep st2 \<noteq> 0"
    using assms by (simp add: st2_def emit_def)
  then show ?thesis unfolding e by (rule softRestartLoop_defined)
qed

lemma pluginLoad_stride_nonzero: "showProgressAnyStep (pluginLoad toStride st) \<noteq> 0"
  using calcProgress_stride_nonzero [of toStride "st\<lparr>descRunSteps := runSteps st\<rparr>"]
  by (simp add: pluginLoad_def Let_def)

text \<open>
  C9. Whatever percentage is configured and whatever the number of steps, after
  \<^verbatim>\<open>calcProgress\<close> the stride \<^verbatim>\<open>showProgressAnyStep\<close> is at least 1: a percentage of 0 or
  above 100 has become 100, a computed stride of 0 has become 1. So the remainder in
  \<^verbatim>\<open>dumpTimes\<close> never divides by zero: not in a call after \<^verbatim>\<open>calcProgress\<close> or after
  \<^verbatim>\<open>pluginLoad\<close>, which calls it, and nowhere in a run of \<^verbatim>\<open>startSimulation\<close> from such a
  state, since nothing else writes the stride. The double precision computation of the
  stride is the parameter \<open>toStride\<close>: the statement holds for every value it may yield.
\<close>

theorem C9_stride_at_least_one:
  "1 \<le> showProgressAnyStep (calcProgress toStride st) \<and>
   progress (calcProgress toStride st) =
     (if progress st = 0 \<or> 100 < progress st then 100 else progress st) \<and>
   showProgressAnyStep (calcProgress toStride st) =
     (if toStride (descRunSteps st) (progress (calcProgress toStride st)) = 0 then 1
      else toStride (descRunSteps st) (progress (calcProgress toStride st))) \<and>
   dumpTimes currentStep (calcProgress toStride st) \<noteq> Inl DivisionByZero \<and>
   dumpTimes currentStep (pluginLoad toStride st) \<noteq> Inl DivisionByZero \<and>
   startSimulation fuel env (calcProgress toStride st) \<noteq> Some (Inl DivisionByZero) \<and>
   startSimulation fuel env (pluginLoad toStride st) \<noteq> Some (Inl DivisionByZero)"
proof -
  have a: "1 \<le> showProgressAnyStep (calcProgress toStride st)"
    using calcProgress_stride_nonzero by (simp add: word_one_le_iff)
  have b: "dumpTimes currentStep (calcProgress toStride st) \<noteq> Inl DivisionByZero"
    using calcProgress_stride_nonzero by (rule dumpTimes_defined)
  have c: "dumpTimes currentStep (pluginLoad toStride st) \<noteq> Inl DivisionByZero"
    using pluginLoad_stride_nonzero by (rule dumpTimes_defined)
  have d: "startSimulation fuel env (calcProgress toStride st) \<noteq> Some (Inl DivisionByZero)"
    using calcProgress_stride_nonzero by (rule startSimulation_defined)
  have e: "startSimulation fuel env (pluginLoad toStride st) \<noteq> Some (Inl DivisionByZero)"
    using pluginLoad_stride_nonzero by (rule startSimulation_defined)
  show ?thesis
    using a b c d e calcProgress_progress [of toStride st] calcProgress_stride [of toStride st]
    by (simp add: Let_def)
qed

theorem C9_stride_at_least_one_witness:
  "showProgressAnyStep
     (calcProgress (\<lambda>r p. 0) (newSimulationHelper 0 Map.empty (\<lambda>p. True))) = 1 \<and>
   progress
     (calcProgress (\<lambda>r p. 0)
        ((newSimulationHelper 0 Map.empty (\<lambda>p. True))\<lparr>progress := 0\<rparr>)) = 100 \<and>
   dumpTimes 7
     (calcProgress (\<lambda>r p. 0)
        ((newSimulationHelper 0 Map.empty (\<lambda>p. True))\<lparr>output_flag := True\<rparr>))
     \<noteq> Inl DivisionByZero \<and>
   startSimulation (Suc (Suc 0))
     \<lparr>toTimeSlice = (\<lambda>s. Some []), fillSimulation = (\<lambda>i. 0),
      signalsAt = (\<lambda>i k. \<lparr>received = False, createCheckpoint = False,
                            stopSimulation = False, peers = []\<rparr>)\<rparr>
     (pluginLoad (\<lambda>r p. 0) ((newSimulationHelper 0 Map.empty (\<lambda>p. True))\<lparr>runSteps := 2\<rparr>))
     \<noteq> Some (Inl DivisionByZero) \<and>
   startSimulation (Suc (Suc 0))
     \<lparr>toTimeSlice = (\<lambda>s. Some []), fillSimulation = (\<lambda>i. 0),
      signalsAt = (\<lambda>i k. \<lparr>received = False, createCheckpoint = False,
                            stopSimulation = False, peers = []\<rparr>)\<rparr>
     ((newSimulationHelper 0 Map.empty (\<lambda>p. True))\<lparr>descRunSteps := 2, output_flag := True\<rparr>)
     = Some (Inl DivisionByZero)"
proof -
  have u: "startSimulation (Suc (Suc 0))
     \<lparr>toTimeSlice = (\<lambda>s. Some []), fillSimulation = (\<lambda>i. 0),
      signalsAt = (\<lambda>i k. \<lparr>received = False, createCheckpoint = False,
                            stopSimulation = False, peers = []\<rparr>)\<rparr>
     ((newSimulationHelper 0 Map.empty (\<lambda>p. True))\<lparr>descRunSteps := 2, output_flag := True\<rparr>)
     = Some (Inl DivisionByZero)"
    by (simp add: simulationLoop.simps run_defs)
  show ?thesis
    using C9_stride_at_least_one [of "\<lambda>r p. 0" "newSimulationHelper 0 Map.empty (\<lambda>p. True)" 7]
      C9_stride_at_least_one [of "\<lambda>r p. 0"
        "(newSimulationHelper 0 Map.empty (\<lambda>p. True))\<lparr>output_flag := True\<rparr>" 7]
      C9_stride_at_least_one [of "\<lambda>r p. 0"
        "(newSimulationHelper 0 Map.empty (\<lambda>p. True))\<lparr>runSteps := 2\<rparr>" 7 "Suc (Suc 0)"
        "\<lparr>toTimeSlice = (\<lambda>s. Some []), fillSimulation = (\<lambda>i. 0),
          signalsAt = (\<lambda>i k. \<lparr>received = False, createCheckpoint = False,
                            stopSimulation = False, peers = []\<rparr>)\<rparr>"]
      u
    by (simp add: newSimulationHelper_def calcProgress_def Let_def)
qed

end
